theory Spec2Isabelle
  imports Complex_Main "HOL-Library.Monad_Syntax"
begin

section \<open>VRController: the OpenNI frame pipeline\<close>

text \<open>
  A shallow embedding of \<^verbatim>\<open>openniutil.h\<close> and of the lifecycle part of
  \<^verbatim>\<open>openniapplication.cpp\<close>.

  Numbers. A \<^verbatim>\<open>float\<close> or \<^verbatim>\<open>double\<close> value is a \<^typ>\<open>real\<close>, and every
  floating-point operation of the source is followed by the rounding of its format,
  \<open>float32\<close> or \<open>float64\<close>: the IEEE rounding to the nearest value, ties to even. The
  library functions \<^verbatim>\<open>atan\<close>, \<^verbatim>\<open>pow\<close> and \<^verbatim>\<open>sqrt\<close> are taken as correctly
  rounded. Magnitudes beyond the largest value of a format are not modelled. The places
  where the source divides by a value that can be zero are written out, since IEEE
  division does not fail there but yields an infinity or a NaN: a NaN is a value of its
  own (\<open>NaN\<close> below), on which every comparison is false. The C++ type \<^verbatim>\<open>int\<close> is
  modelled by \<^typ>\<open>int\<close>; a conversion or an operation whose result is not a 32-bit
  \<^verbatim>\<open>int\<close> has no defined behaviour in C++ and is \<open>None\<close> in the model.
\<close>

subsection \<open>Data model (openniutil.h, lines 37-104)\<close>

datatype XnSkeletonJoint =
    XN_SKEL_TORSO
  | XN_SKEL_LEFT_SHOULDER | XN_SKEL_RIGHT_SHOULDER
  | XN_SKEL_LEFT_HIP | XN_SKEL_LEFT_KNEE | XN_SKEL_LEFT_FOOT
  | XN_SKEL_RIGHT_HIP | XN_SKEL_RIGHT_KNEE | XN_SKEL_RIGHT_FOOT

record XnVector3D =
  X :: real
  Y :: real
  Z :: real

record XnSkeletonJointPosition =
  position :: XnVector3D
  fConfidence :: real

record Joint =
  jointType :: XnSkeletonJoint
  isActive :: bool
  info :: XnSkeletonJointPosition
  projectivePos :: XnVector3D

record BodyPart =
  hip :: Joint
  knee :: Joint
  foot :: Joint
  shoulder :: Joint

record User =
  id :: nat
  isTracking :: bool
  timestamp :: int
  torsoJoint :: Joint
  leftPart :: BodyPart
  rightPart :: BodyPart
  previousLeftPart :: BodyPart
  previousRightPart :: BodyPart
  rotation :: int
  rotationConfidence :: real
  walkSpeed :: int
  walkSpeedConfidence :: real
  numberOfFramesWithoutMove :: int

record CameraInformations =
  user :: User
  hasSecondView :: bool
  secondUser :: User
  secondRotationProjected :: int
  averageRotation :: int
  averageWalkSpeed :: int
  invalid :: bool

text \<open>
  The default constructors. A member without an initialiser is left indeterminate by C++;
  the model gives it the unspecified value \<^term>\<open>undefined\<close>, about which nothing can be
  proved.
\<close>

definition defaultJoint :: Joint where
  "defaultJoint =
     \<lparr>jointType = undefined, isActive = False, info = undefined, projectivePos = undefined\<rparr>"

definition defaultBodyPart :: BodyPart where
  "defaultBodyPart =
     \<lparr>hip = defaultJoint, knee = defaultJoint, foot = defaultJoint, shoulder = defaultJoint\<rparr>"

definition defaultUser :: User where
  "defaultUser =
     \<lparr>id = undefined, isTracking = False, timestamp = undefined,
      torsoJoint = defaultJoint,
      leftPart = defaultBodyPart, rightPart = defaultBodyPart,
      previousLeftPart = defaultBodyPart, previousRightPart = defaultBodyPart,
      rotation = -1, rotationConfidence = -1,
      walkSpeed = -1, walkSpeedConfidence = -1,
      numberOfFramesWithoutMove = 0\<rparr>"

definition defaultCameraInformations :: CameraInformations where
  "defaultCameraInformations =
     \<lparr>user = defaultUser, hasSecondView = False, secondUser = defaultUser,
      secondRotationProjected = -1, averageRotation = -1, averageWalkSpeed = -1,
      invalid = False\<rparr>"

subsection \<open>Numbers\<close>

text \<open>
  Binary floating point. \<open>pow2 e\<close> is \<open>2^e\<close>; \<open>rne\<close> rounds to the nearest integer, a
  tie to the even one; \<open>binaryExponent emin x\<close> is the binary exponent of \<open>x\<close>, not below
  the exponent \<open>emin\<close> of the subnormal numbers; \<open>roundBinary p emin x\<close> keeps \<open>p + 1\<close>
  significant bits of \<open>x\<close>. \<open>float32\<close> is the rounding to a \<^verbatim>\<open>float\<close>, \<open>float64\<close> the
  rounding to a \<^verbatim>\<open>double\<close>.
\<close>

definition pow2 :: "int \<Rightarrow> real" where
  "pow2 e = (if 0 \<le> e then 2 ^ nat e else 1 / 2 ^ nat (- e))"

definition rne :: "real \<Rightarrow> int" where
  "rne y =
     (let n = \<lfloor>y\<rfloor>; d = y - real_of_int n
      in if d < 1 / 2 then n
         else if d > 1 / 2 then n + 1
         else if even n then n else n + 1)"

definition binaryExponent :: "int \<Rightarrow> real \<Rightarrow> int" where
  "binaryExponent emin x = max \<lfloor>log 2 \<bar>x\<bar>\<rfloor> emin"

definition roundBinary :: "int \<Rightarrow> int \<Rightarrow> real \<Rightarrow> real" where
  "roundBinary p emin x =
     (if x = 0 then 0
      else (let u = pow2 (binaryExponent emin x - p)
            in real_of_int (rne (x / u)) * u))"

definition float32 :: "real \<Rightarrow> real" where
  "float32 x = roundBinary 23 (- 126) x"

definition float64 :: "real \<Rightarrow> real" where
  "float64 x = roundBinary 52 (- 1022) x"

text \<open>The numbers that a \<^verbatim>\<open>float\<close> can hold.\<close>

definition isFloat :: "real \<Rightarrow> bool" where
  "isFloat x \<longleftrightarrow> float32 x = x"

text \<open>
  A \<^verbatim>\<open>float\<close> that is either a finite number or a NaN, with the single-precision sum
  and difference of a constant and such a value.
\<close>

datatype cfloat = Fin real | NaN

definition fadd :: "real \<Rightarrow> cfloat \<Rightarrow> cfloat" where
  "fadd a x = (case x of Fin r \<Rightarrow> Fin (float32 (a + r)) | NaN \<Rightarrow> NaN)"

definition fsub :: "real \<Rightarrow> cfloat \<Rightarrow> cfloat" where
  "fsub a x = (case x of Fin r \<Rightarrow> Fin (float32 (a - r)) | NaN \<Rightarrow> NaN)"

text \<open>Rounding toward zero, the rounding of a C++ conversion to \<^verbatim>\<open>int\<close>.\<close>

definition trunc :: "real \<Rightarrow> int" where
  "trunc r = (if 0 \<le> r then \<lfloor>r\<rfloor> else \<lceil>r\<rceil>)"

definition INT_MIN :: int where
  "INT_MIN = - 2147483648"

definition INT_MAX :: int where
  "INT_MAX = 2147483647"

text \<open>The value of an \<^verbatim>\<open>int\<close> expression: defined when it is representable.\<close>

definition int32 :: "int \<Rightarrow> int option" where
  "int32 i = (if INT_MIN \<le> i \<and> i \<le> INT_MAX then Some i else None)"

text \<open>
  \<^verbatim>\<open>static_cast<int>(x)\<close> on a finite number: defined when the truncated value is
  representable.
\<close>

definition toInt :: "real \<Rightarrow> int option" where
  "toInt r = int32 (trunc r)"

text \<open>The same conversion on a \<^verbatim>\<open>float\<close> that may be a NaN: undefined on the NaN.\<close>

definition castInt :: "cfloat \<Rightarrow> int option" where
  "castInt x = (case x of Fin r \<Rightarrow> toInt r | NaN \<Rightarrow> None)"

text \<open>
  Integer division of C++, which rounds toward zero (the divisor is a positive count
  where the source uses it).
\<close>

definition cdiv :: "int \<Rightarrow> int \<Rightarrow> int" where
  "cdiv a b = (if (a < 0) = (b < 0) then \<bar>a\<bar> div \<bar>b\<bar> else - (\<bar>a\<bar> div \<bar>b\<bar>))"

text \<open>
  \<^verbatim>\<open>#define PI 3.14159265358979323846\<close> and \<^verbatim>\<open>#define RAD2DEG (180.0/PI)\<close>:
  a literal and a quotient of type \<^verbatim>\<open>double\<close>.
\<close>

definition PI :: real where
  "PI = float64 (314159265358979323846 / 100000000000000000000)"

definition RAD2DEG :: real where
  "RAD2DEG = float64 (180 / PI)"

definition MIN_COMPUTED_WALKSPEED :: int where
  "MIN_COMPUTED_WALKSPEED = 40"

subsection \<open>Joint acceptability and angle reduction (openniutil.h, lines 130-143)\<close>

text \<open>
  Line 132 compares the confidence, a \<^verbatim>\<open>float\<close>, with the \<^verbatim>\<open>double\<close> literal 0.6,
  which is slightly below 0.6. No \<^verbatim>\<open>float\<close> lies between the two (lemma
  \<open>confidence_threshold\<close> below), so that the test is \<open>fConfidence \<ge> 0.6\<close>.
\<close>

definition isJointAcceptable :: "Joint \<Rightarrow> bool" where
  "isJointAcceptable joint \<longleftrightarrow> isActive joint \<and> fConfidence (info joint) \<ge> 0.6"

definition reduceAngle :: "real \<Rightarrow> real" where
  "reduceAngle angle =
     (if angle \<ge> 360 then float32 (angle - 360)
      else if angle < 0 then float32 (360 + angle)
      else angle)"

subsection \<open>Rotation from two joints (openniutil.h, lines 176-270)\<close>

text \<open>
  Lines 180-181:
  \<^verbatim>\<open>atan(abs(right.Z - left.Z) / abs(right.X - left.X)) * RAD2DEG\<close>,
  evaluated before the case analysis: two differences, a quotient and an arctangent of
  type \<^verbatim>\<open>float\<close>, a product of type \<^verbatim>\<open>double\<close>, stored in a \<^verbatim>\<open>float\<close>. The
  divisor is \<open>angleDivisor\<close>. When it is zero the IEEE quotient is \<open>+\<infinity>\<close> for a positive
  dividend, whose arctangent is the float nearest to \<open>\<pi>/2\<close>, and a NaN for the dividend
  zero, whose arctangent is a NaN.
\<close>

definition angleDividend :: "Joint \<Rightarrow> Joint \<Rightarrow> real" where
  "angleDividend rightJoint leftJoint =
     \<bar>float32 (Z (position (info rightJoint)) - Z (position (info leftJoint)))\<bar>"

definition angleDivisor :: "Joint \<Rightarrow> Joint \<Rightarrow> real" where
  "angleDivisor rightJoint leftJoint =
     \<bar>float32 (X (position (info rightJoint)) - X (position (info leftJoint)))\<bar>"

definition jointAngle :: "Joint \<Rightarrow> Joint \<Rightarrow> cfloat" where
  "jointAngle rightJoint leftJoint =
     (let n = angleDividend rightJoint leftJoint;
          d = angleDivisor rightJoint leftJoint
      in if d = 0 then
           (if n = 0 then NaN else Fin (float32 (float64 (float32 (pi / 2) * RAD2DEG))))
         else Fin (float32 (float64 (float32 (arctan (float32 (n / d))) * RAD2DEG))))"

text \<open>Lines 183-221: the case analysis, in the order of the source.\<close>

definition rawRotation :: "Joint \<Rightarrow> Joint \<Rightarrow> cfloat" where
  "rawRotation rightJoint leftJoint =
     (let angle = jointAngle rightJoint leftJoint;
          rX = X (position (info rightJoint)); lX = X (position (info leftJoint));
          rZ = Z (position (info rightJoint)); lZ = Z (position (info leftJoint))
      in if rZ = lZ \<and> rX > lX then Fin 0
         else if rX = lX \<and> rZ > lZ then Fin 90
         else if rZ = lZ \<and> rX < lX then Fin 180
         else if rX = lX \<and> rZ < lZ then Fin 90
         else if rZ < lZ then
           (if rX > lX then angle else fsub 180 angle)
         else
           (if rX < lX then fadd 180 angle else fsub 360 angle))"

text \<open>
  Lines 227-259: the smoothing, entered when \<^verbatim>\<open>previousRotation != -1.0f\<close>, every
  operation in single precision. On a NaN every comparison of the source is false, so the
  NaN is returned. The margin \<^verbatim>\<open>55.0f / (float)frequency\<close> is \<open>+\<infinity>\<close> at frequency zero,
  which no difference exceeds.
\<close>

definition clampRotation :: "int \<Rightarrow> real \<Rightarrow> real \<Rightarrow> real" where
  "clampRotation frequency rotation1 previousRotation =
     (let margin = float32 (55 / float32 (real_of_int frequency));
          diffRotation = float32 (rotation1 - previousRotation)
      in if frequency \<noteq> 0 \<and> \<bar>diffRotation\<bar> > margin then
           (if diffRotation > 0 then float32 (previousRotation + margin)
            else float32 (previousRotation - margin))
         else rotation1)"

definition smoothRotation :: "int \<Rightarrow> real \<Rightarrow> real \<Rightarrow> real" where
  "smoothRotation frequency rotation0 previousRotation0 =
     (let wrap = \<bar>float32 (rotation0 - previousRotation0)\<bar> > 180;
          rotation1 = (if wrap \<and> rotation0 < previousRotation0
                       then float32 (rotation0 + 360) else rotation0);
          previousRotation = (if wrap \<and> \<not> rotation0 < previousRotation0
                              then float32 (previousRotation0 + 360)
                              else previousRotation0);
          rotation2 = clampRotation frequency rotation1 previousRotation
      in if rotation2 \<ge> 360 then float32 (rotation2 - 360) else rotation2)"

text \<open>
  The whole function. The confidence slot is \<open>None\<close> for a null pointer and \<open>Some c\<close> for a
  slot that holds \<open>c\<close>; the function returns the rotation and the slot after the call.
\<close>

definition rotationFrom2Joints ::
  "int \<Rightarrow> Joint \<Rightarrow> Joint \<Rightarrow> real \<Rightarrow> real option \<Rightarrow> cfloat \<times> real option" where
  "rotationFrom2Joints frequency rightJoint leftJoint previousRotation resultConfidence =
     (if isJointAcceptable rightJoint \<and> isJointAcceptable leftJoint then
        (let rotation0 = rawRotation rightJoint leftJoint;
             rotation3 = (if previousRotation \<noteq> -1 then
                            (case rotation0 of
                               Fin r \<Rightarrow> Fin (smoothRotation frequency r previousRotation)
                             | NaN \<Rightarrow> NaN)
                          else rotation0)
         in (rotation3,
             map_option (\<lambda>_. float32 (float32 (fConfidence (info leftJoint) + 1)
                                       * float32 (fConfidence (info rightJoint) + 1)))
               resultConfidence))
      else (Fin (- 1), map_option (\<lambda>_. - 1) resultConfidence))"

subsection \<open>Rotation of a user (openniutil.h, lines 272-309)\<close>

text \<open>
  Lines 290-303: the loop over the four estimates, with the running sum and count. The
  test \<^verbatim>\<open>rotations[i] > 180.0f\<close> compares as \<^verbatim>\<open>float\<close>, and
  \<^verbatim>\<open>rotSum += (rotations[i] - 360.0f)\<close> adds as \<^verbatim>\<open>float\<close> and converts the sum back
  to \<^verbatim>\<open>int\<close>.
\<close>

fun sumRotations :: "int list \<Rightarrow> int \<Rightarrow> int \<Rightarrow> (int \<times> int) option" where
  "sumRotations [] rotSum rotCount = Some (rotSum, rotCount)"
| "sumRotations (r # rs) rotSum rotCount =
     (if r \<noteq> - 1 then
        do {
          rotSum1 \<leftarrow>
            (if float32 (real_of_int r) > 180
             then toInt (float32 (float32 (real_of_int rotSum)
                                  + float32 (float32 (real_of_int r) - 360)))
             else int32 (rotSum + r));
          rotCount1 \<leftarrow> int32 (rotCount + 1);
          sumRotations rs rotSum1 rotCount1
        }
      else sumRotations rs rotSum rotCount)"

text \<open>
  Lines 305-308: \<^verbatim>\<open>reduceAngle(rotSum / rotCount)\<close> is an integer division, whose
  quotient is converted to \<^verbatim>\<open>float\<close> and whose reduced value is stored in an \<^verbatim>\<open>int\<close>.
\<close>

definition aggregateRotations :: "int list \<Rightarrow> int option" where
  "aggregateRotations rotations =
     do {
       (rotSum, rotCount) \<leftarrow> sumRotations rotations 0 0;
       if rotCount \<noteq> 0
       then toInt (reduceAngle (float32 (real_of_int (cdiv rotSum rotCount))))
       else Some (- 1)
     }"

text \<open>
  The four estimates of lines 277-287, before their conversion to \<^verbatim>\<open>int\<close>. The previous
  rotation, an \<^verbatim>\<open>int\<close>, is converted to the \<^verbatim>\<open>float\<close> parameter.
\<close>

definition pairRotations :: "int \<Rightarrow> int \<Rightarrow> User \<Rightarrow> cfloat list" where
  "pairRotations frequency previousRotation usr =
     [fst (rotationFrom2Joints frequency (hip (rightPart usr)) (hip (leftPart usr))
             (float32 (real_of_int previousRotation)) (Some (rotationConfidence usr))),
      fst (rotationFrom2Joints frequency (hip (rightPart usr)) (torsoJoint usr)
             (float32 (real_of_int previousRotation)) None),
      fst (rotationFrom2Joints frequency (torsoJoint usr) (hip (leftPart usr))
             (float32 (real_of_int previousRotation)) None),
      fst (rotationFrom2Joints frequency (shoulder (rightPart usr)) (shoulder (leftPart usr))
             (float32 (real_of_int previousRotation)) None)]"

text \<open>The conversions \<^verbatim>\<open>static_cast<int>\<close> of the four estimates, in order.\<close>

fun castAll :: "cfloat list \<Rightarrow> int list option" where
  "castAll [] = Some []"
| "castAll (x # xs) = do { i \<leftarrow> castInt x; is \<leftarrow> castAll xs; Some (i # is) }"

definition rotationForUser :: "int \<Rightarrow> int \<Rightarrow> User \<Rightarrow> User option" where
  "rotationForUser frequency previousRotation usr =
     do {
       rotations \<leftarrow> castAll (pairRotations frequency previousRotation usr);
       let confidence =
             snd (rotationFrom2Joints frequency (hip (rightPart usr)) (hip (leftPart usr))
                    (float32 (real_of_int previousRotation)) (Some (rotationConfidence usr)));
       rotation1 \<leftarrow> aggregateRotations rotations;
       Some (usr\<lparr>rotationConfidence :=
                    (case confidence of Some c \<Rightarrow> c | None \<Rightarrow> rotationConfidence usr),
                  rotation := rotation1\<rparr>)
     }"



subsection \<open>Walk speed of a user (openniutil.h, lines 311-370)\<close>

text \<open>
  Lines 356-367, entered when \<^verbatim>\<open>previousSpeed != -1\<close>. The margin is the conversion to
  \<^verbatim>\<open>int\<close> of \<^verbatim>\<open>100.0f / (float)frequency\<close>, an infinity at frequency zero.
\<close>

definition smoothSpeed :: "int \<Rightarrow> int \<Rightarrow> int \<Rightarrow> int option" where
  "smoothSpeed frequency speed previousSpeed =
     do {
       margin \<leftarrow> (if frequency = 0 then None
                  else toInt (float32 (100 / float32 (real_of_int frequency))));
       difference \<leftarrow> int32 (speed - previousSpeed);
       distance \<leftarrow> int32 \<bar>difference\<bar>;
       if distance > margin then
         (if speed < previousSpeed then int32 (previousSpeed - margin)
          else int32 (previousSpeed + margin))
       else Some speed
     }"

text \<open>
  The whole function: the returned speed and the content of the confidence slot after the
  call. The differences of the coordinates and the sum of the two distances are of type
  \<^verbatim>\<open>float\<close>; the squares, their sum and its root (lines 343-344), the halving and
  line 353 are of type \<^verbatim>\<open>double\<close>, with the \<^verbatim>\<open>double\<close> literals 0.1 and 0.001. The
  timestamps are \<^verbatim>\<open>int64_t\<close> milliseconds. Line 353 divides by
  \<^verbatim>\<open>diffTime * 0.001\<close>: when this is zero the quotient is an infinity or a NaN, whose
  conversion to \<^verbatim>\<open>int\<close> is undefined.
\<close>

definition walkSpeedForUser ::
  "int \<Rightarrow> User \<Rightarrow> int \<Rightarrow> int \<Rightarrow> real \<Rightarrow> (int \<times> real) option" where
  "walkSpeedForUser frequency usr previousTimestamp previousSpeed resultConfidence =
     (let rightFoot = foot (rightPart usr); previousRightFoot = foot (previousRightPart usr);
          leftFoot = foot (leftPart usr); previousLeftFoot = foot (previousLeftPart usr);
          cantCompute =
            (\<not> (isJointAcceptable rightFoot \<and> isJointAcceptable previousRightFoot
                \<and> isJointAcceptable leftFoot \<and> isJointAcceptable previousLeftFoot))
      in if cantCompute then Some (- 1, resultConfidence)
         else
           (let rdx = float32 (X (position (info previousRightFoot))
                               - X (position (info rightFoot)));
                rdz = float32 (Z (position (info previousRightFoot))
                               - Z (position (info rightFoot)));
                ldx = float32 (X (position (info previousLeftFoot))
                               - X (position (info leftFoot)));
                ldz = float32 (Z (position (info previousLeftFoot))
                               - Z (position (info leftFoot)));
                confidence =
                  float32 (float32 (float32 (float32 (fConfidence (info rightFoot) + 1)
                                             * float32 (fConfidence (info previousRightFoot) + 1))
                                    * float32 (fConfidence (info leftFoot) + 1))
                           * float32 (fConfidence (info previousLeftFoot) + 1));
                rightDiff =
                  float32 (float64 (sqrt (float64 (float64 (rdx ^ 2) + float64 (rdz ^ 2)))));
                leftDiff =
                  float32 (float64 (sqrt (float64 (float64 (ldx ^ 2) + float64 (ldz ^ 2)))));
                diff = float32 (float64 (float32 (rightDiff + leftDiff) / 2));
                diffTime = timestamp usr - previousTimestamp;
                divisor = float64 (float64 (real_of_int diffTime) * float64 (1 / 1000))
            in do {
                 speed \<leftarrow> (if divisor = 0 then None
                           else toInt (float64 (float64 (diff * float64 (1 / 10)) / divisor)));
                 speed1 \<leftarrow> (if previousSpeed \<noteq> - 1
                            then smoothSpeed frequency speed previousSpeed
                            else Some speed);
                 Some (speed1, confidence)
               }))"

subsection \<open>The application (openniapplication.cpp)\<close>

text \<open>
  The calibration status of the sensor library (\<^verbatim>\<open>XnTypes.h\<close>, which the repository
  includes and does not contain). The callback compares it with
  \<^verbatim>\<open>XN_CALIBRATION_STATUS_OK\<close> and \<^verbatim>\<open>XN_CALIBRATION_STATUS_MANUAL_ABORT\<close> only.
\<close>

datatype XnCalibrationStatus =
    XN_CALIBRATION_STATUS_OK
  | XN_CALIBRATION_STATUS_NO_USER
  | XN_CALIBRATION_STATUS_ARM
  | XN_CALIBRATION_STATUS_LEG
  | XN_CALIBRATION_STATUS_HEAD
  | XN_CALIBRATION_STATUS_TORSO
  | XN_CALIBRATION_STATUS_TOP_FOV
  | XN_CALIBRATION_STATUS_SIDE_FOV
  | XN_CALIBRATION_STATUS_POSE
  | XN_CALIBRATION_STATUS_MANUAL_ABORT
  | XN_CALIBRATION_STATUS_MANUAL_RESET
  | XN_CALIBRATION_STATUS_TIMEOUT_FAIL

text \<open>The two commands that the application sends to the skeleton capability.\<close>

datatype SensorRequest = RequestCalibration nat bool | StartTracking nat

text \<open>
  The members of \<^verbatim>\<open>OpenNIApplication\<close> that the modelled functions read or write
  (\<^verbatim>\<open>_frequency\<close>, \<^verbatim>\<open>_init\<close>, \<^verbatim>\<open>_started\<close>, \<^verbatim>\<open>_stopped\<close>, \<^verbatim>\<open>_stopRequested\<close>,
  \<^verbatim>\<open>_sensor.camInfo\<close>, the content of \<^verbatim>\<open>_infoMemory\<close> when it is attached), and the
  sensor side: whether the two generators and the context were released, the requests the
  skeleton capability received, in order, and the status it answers to a request. The
  mutexes are not modelled: every function below runs alone. The depth map and its shared
  memory are left out.
\<close>

record OpenNIApplication =
  app_frequency :: int
  app_init :: bool
  app_started :: bool
  app_stopped :: bool
  app_stopRequested :: bool
  app_camInfo :: CameraInformations
  app_infoMemory :: "CameraInformations option"
  depthGeneratorReleased :: bool
  userGeneratorReleased :: bool
  contextReleased :: bool
  requests :: "SensorRequest list"
  requestStatus :: "SensorRequest \<Rightarrow> nat"

text \<open>Lines 122-166.\<close>

definition cleanup :: "OpenNIApplication \<Rightarrow> OpenNIApplication" where
  "cleanup app =
     app\<lparr>depthGeneratorReleased := True, userGeneratorReleased := True,
         contextReleased := True, app_stopped := True\<rparr>"

definition isInitialized :: "OpenNIApplication \<Rightarrow> bool" where
  "isInitialized app = app_init app"

definition isStarted :: "OpenNIApplication \<Rightarrow> bool" where
  "isStarted app = app_started app"

definition isStopped :: "OpenNIApplication \<Rightarrow> bool" where
  "isStopped app = app_stopped app"

definition requestStop :: "OpenNIApplication \<Rightarrow> OpenNIApplication" where
  "requestStop app =
     (let app1 = app\<lparr>app_stopRequested := True\<rparr>
      in if \<not> isStarted app1 then cleanup app1 else app1)"

text \<open>Lines 442-464: the returned status and the application after the call.\<close>

definition startCalibration :: "OpenNIApplication \<Rightarrow> nat \<Rightarrow> nat \<times> OpenNIApplication" where
  "startCalibration app userID =
     (if app_started app then
        (requestStatus app (RequestCalibration userID True),
         app\<lparr>requests := requests app @ [RequestCalibration userID True]\<rparr>)
      else (100, app))"


text \<open>
  Lines 49-56 and 72-92: the callbacks. The cookie is \<open>None\<close> for a null pointer, on
  which \<^verbatim>\<open>GET_OPENNI_APP\<close> returns at once; the result is the application after the call.
  Logging is not modelled.
\<close>

definition newUserCallback ::
  "nat \<Rightarrow> OpenNIApplication option \<Rightarrow> OpenNIApplication option" where
  "newUserCallback userID cookie =
     (case cookie of
        None \<Rightarrow> None
      | Some app \<Rightarrow> Some (snd (startCalibration app userID)))"



subsection \<open>The frame loop (openniapplication.cpp, lines 286-424)\<close>

text \<open>
  What the sensor hands over in one iteration: the five entries of \<^verbatim>\<open>usersArray\<close> after
  \<^verbatim>\<open>GetUsers\<close>, the answer of \<^verbatim>\<open>IsTracking\<close>, the clock in milliseconds, and for
  every joint the answers of \<^verbatim>\<open>IsJointActive\<close>, \<^verbatim>\<open>GetSkeletonJointPosition\<close> and
  \<^verbatim>\<open>ConvertRealWorldToProjective\<close>.
\<close>

record Frame =
  users :: "nat list"
  tracking :: "nat \<Rightarrow> bool"
  now :: int
  jointActive :: "XnSkeletonJoint \<Rightarrow> bool"
  jointPosition :: "nat \<Rightarrow> XnSkeletonJoint \<Rightarrow> XnSkeletonJointPosition"
  projective :: "XnVector3D \<Rightarrow> XnVector3D"

text \<open>Lines 411-424.\<close>

definition createJoint :: "Frame \<Rightarrow> XnSkeletonJoint \<Rightarrow> nat \<Rightarrow> Joint" where
  "createJoint fr jType userID =
     (let joint = defaultJoint\<lparr>jointType := jType, isActive := jointActive fr jType\<rparr>
      in if isActive joint then
           joint\<lparr>info := jointPosition fr userID jType,
                 projectivePos := projective fr (position (jointPosition fr userID jType))\<rparr>
         else joint)"

text \<open>Lines 326-335: the first tracked entry of the array, 0 without one.\<close>

definition firstTracked :: "Frame \<Rightarrow> nat" where
  "firstTracked fr = (case find (tracking fr) (users fr) of Some i \<Rightarrow> i | None \<Rightarrow> 0)"

text \<open>
  Lines 341-358: the user of a frame in which \<^verbatim>\<open>firstTrackingID != 0\<close>, before the
  two estimators run.
\<close>

definition newUser :: "Frame \<Rightarrow> User \<Rightarrow> nat \<Rightarrow> User" where
  "newUser fr previousUser firstTrackingID =
     defaultUser
       \<lparr>id := firstTrackingID, isTracking := True, timestamp := now fr,
        torsoJoint := createJoint fr XN_SKEL_TORSO firstTrackingID,
        leftPart :=
          \<lparr>hip = createJoint fr XN_SKEL_LEFT_HIP firstTrackingID,
           knee = createJoint fr XN_SKEL_LEFT_KNEE firstTrackingID,
           foot = createJoint fr XN_SKEL_LEFT_FOOT firstTrackingID,
           shoulder = createJoint fr XN_SKEL_LEFT_SHOULDER firstTrackingID\<rparr>,
        rightPart :=
          \<lparr>hip = createJoint fr XN_SKEL_RIGHT_HIP firstTrackingID,
           knee = createJoint fr XN_SKEL_RIGHT_KNEE firstTrackingID,
           foot = createJoint fr XN_SKEL_RIGHT_FOOT firstTrackingID,
           shoulder = createJoint fr XN_SKEL_RIGHT_SHOULDER firstTrackingID\<rparr>,
        previousLeftPart := leftPart previousUser,
        previousRightPart := rightPart previousUser\<rparr>"

text \<open>Lines 365-369: the walk speed and the counter, in an iteration after the first.\<close>

definition speedAndCounter :: "int \<Rightarrow> User \<Rightarrow> User \<Rightarrow> User option" where
  "speedAndCounter frequency previousUser usr1 =
     do {
       (speed, confidence) \<leftarrow>
         walkSpeedForUser frequency usr1 (timestamp previousUser)
           (walkSpeed previousUser) (walkSpeedConfidence usr1);
       counter \<leftarrow>
         (if walkSpeed previousUser \<noteq> - 1
             \<and> walkSpeed previousUser \<le> MIN_COMPUTED_WALKSPEED
          then int32 (numberOfFramesWithoutMove previousUser + 1)
          else Some 0);
       Some (usr1\<lparr>walkSpeed := speed, walkSpeedConfidence := confidence,
                  numberOfFramesWithoutMove := counter\<rparr>)
     }"

text \<open>Lines 341-370: the user of a frame in which \<^verbatim>\<open>firstTrackingID != 0\<close>.\<close>

definition trackedUser ::
  "OpenNIApplication \<Rightarrow> bool \<Rightarrow> Frame \<Rightarrow> User \<Rightarrow> nat \<Rightarrow> User option" where
  "trackedUser app firstLoop fr previousUser firstTrackingID =
     do {
       usr1 \<leftarrow> rotationForUser (app_frequency app) (rotation previousUser)
                 (newUser fr previousUser firstTrackingID);
       if \<not> firstLoop then speedAndCounter (app_frequency app) previousUser usr1
       else Some usr1
     }"

text \<open>
  Lines 313-405: one iteration past the stop test; the application and \<^verbatim>\<open>firstLoop\<close>
  after it.
\<close>

definition frameIteration ::
  "OpenNIApplication \<Rightarrow> bool \<Rightarrow> Frame \<Rightarrow> (OpenNIApplication \<times> bool) option" where
  "frameIteration app firstLoop fr =
     (let previousUser = user (app_camInfo app);
          firstTrackingID = firstTracked fr
      in do {
           usr \<leftarrow> (if firstTrackingID \<noteq> 0
                    then trackedUser app firstLoop fr previousUser firstTrackingID
                    else Some (defaultUser\<lparr>id := 0, isTracking := False\<rparr>));
           let camInfo = defaultCameraInformations\<lparr>user := usr\<rparr>;
           let app1 = app\<lparr>app_camInfo := camInfo,
                          app_infoMemory := map_option (\<lambda>_. camInfo) (app_infoMemory app)\<rparr>;
           Some (if firstLoop then app1\<lparr>app_started := True\<rparr> else app1, False)
         })"

text \<open>
  The loop runs on what happens around it: the sensor delivers a frame, or another calling
  context calls \<open>requestStop\<close> between two iterations. It returns when it finds the stop
  request at the top of an iteration; when the events are used up it is still waiting for
  the sensor.
\<close>

datatype Event = NewFrame Frame | StopRequest

datatype LoopResult =
    Returned nat OpenNIApplication
  | Waiting OpenNIApplication bool
  | UndefinedBehaviour

fun frameLoop :: "OpenNIApplication \<Rightarrow> bool \<Rightarrow> nat \<Rightarrow> Event list \<Rightarrow> LoopResult" where
  "frameLoop app firstLoop status [] =
     (if app_stopRequested app then Returned status (cleanup app)
      else Waiting app firstLoop)"
| "frameLoop app firstLoop status (StopRequest # events) =
     (if app_stopRequested app then Returned status (cleanup app)
      else frameLoop (requestStop app) firstLoop status events)"
| "frameLoop app firstLoop status (NewFrame fr # events) =
     (if app_stopRequested app then Returned status (cleanup app)
      else case frameIteration app firstLoop fr of
             None \<Rightarrow> UndefinedBehaviour
           | Some (app1, firstLoop1) \<Rightarrow> frameLoop app1 firstLoop1 status events)"

text \<open>
  Lines 286-409; \<open>generating\<close> is the status that \<^verbatim>\<open>StartGeneratingAll\<close> answers, 0 for
  \<^verbatim>\<open>XN_STATUS_OK\<close>.
\<close>

definition start :: "OpenNIApplication \<Rightarrow> nat \<Rightarrow> Event list \<Rightarrow> LoopResult" where
  "start app generating events =
     (if \<not> app_init app then Returned 5 app
      else if generating \<noteq> 0 then Returned generating app
      else frameLoop app True generating events)"


text \<open>Joints for the concrete evaluations below, at the given X and Z.\<close>

definition sampleJoint :: "bool \<Rightarrow> real \<Rightarrow> real \<Rightarrow> real \<Rightarrow> Joint" where
  "sampleJoint active confidence x z =
     \<lparr>jointType = XN_SKEL_TORSO, isActive = active,
      info = \<lparr>position = \<lparr>X = x, Y = 0, Z = z\<rparr>, fConfidence = confidence\<rparr>,
      projectivePos = \<lparr>X = 0, Y = 0, Z = 0\<rparr>\<rparr>"

definition jointAt :: "real \<Rightarrow> real \<Rightarrow> Joint" where
  "jointAt x z = sampleJoint True 1 x z"

text \<open>Users for the concrete evaluations below.\<close>

definition inactiveJoint :: Joint where
  "inactiveJoint = sampleJoint False 0 0 0"

definition samplePart :: "Joint \<Rightarrow> Joint \<Rightarrow> Joint \<Rightarrow> BodyPart" where
  "samplePart h f s = \<lparr>hip = h, knee = inactiveJoint, foot = f, shoulder = s\<rparr>"

definition sampleUser :: "BodyPart \<Rightarrow> BodyPart \<Rightarrow> BodyPart \<Rightarrow> BodyPart \<Rightarrow> int \<Rightarrow> User" where
  "sampleUser l r pl pr t =
     \<lparr>id = 1, isTracking = True, timestamp = t, torsoJoint = inactiveJoint,
      leftPart = l, rightPart = r, previousLeftPart = pl, previousRightPart = pr,
      rotation = - 1, rotationConfidence = - 1, walkSpeed = - 1, walkSpeedConfidence = - 1,
      numberOfFramesWithoutMove = 0\<rparr>"


definition footPart :: "Joint \<Rightarrow> BodyPart" where
  "footPart f = samplePart inactiveJoint f inactiveJoint"

definition walkingUser :: User where
  "walkingUser =
     sampleUser (footPart (jointAt 0 0)) (footPart (jointAt 200 0))
                (footPart (jointAt 50 0)) (footPart (jointAt 250 0)) 100"

definition limpingUser :: User where
  "limpingUser =
     sampleUser (footPart inactiveJoint) (footPart (jointAt 200 0))
                (footPart (jointAt 50 0)) (footPart (jointAt 250 0)) 100"

text \<open>
  Applications for the concrete evaluations below: initialised and not started, and
  started, at 30 frames per second.
\<close>

definition initializedApp :: OpenNIApplication where
  "initializedApp =
     \<lparr>app_frequency = 30, app_init = True, app_started = False, app_stopped = False,
      app_stopRequested = False, app_camInfo = defaultCameraInformations,
      app_infoMemory = Some defaultCameraInformations,
      depthGeneratorReleased = False, userGeneratorReleased = False, contextReleased = False,
      requests = [], requestStatus = (\<lambda>_. 0)\<rparr>"

definition runningApp :: OpenNIApplication where
  "runningApp = initializedApp\<lparr>app_started := True\<rparr>"

text \<open>
  A frame in which user 1 is tracked and no joint is active, a frame without any tracked
  user, and the started application whose previous frame had a given walk speed and a
  given counter.
\<close>

definition quietFrame :: Frame where
  "quietFrame =
     \<lparr>users = [1, 0, 0, 0, 0], tracking = (\<lambda>i. i = 1), now = 1000,
      jointActive = (\<lambda>_. False),
      jointPosition = (\<lambda>_ _. \<lparr>position = \<lparr>X = 0, Y = 0, Z = 0\<rparr>, fConfidence = 0\<rparr>),
      projective = (\<lambda>v. v)\<rparr>"

definition emptyFrame :: Frame where
  "emptyFrame = quietFrame\<lparr>users := [0, 0, 0, 0, 0], tracking := (\<lambda>_. False)\<rparr>"

definition appAfter :: "int \<Rightarrow> int \<Rightarrow> OpenNIApplication" where
  "appAfter speed counter =
     runningApp\<lparr>app_camInfo :=
       defaultCameraInformations
         \<lparr>user := defaultUser\<lparr>walkSpeed := speed, numberOfFramesWithoutMove := counter\<rparr>\<rparr>\<rparr>"

section \<open>Properties\<close>

subsection \<open>Rounding to a binary format\<close>

lemma pow2_powr: "pow2 e = 2 powr real_of_int e"
proof (cases "0 \<le> e")
  case True
  then show ?thesis by (simp add: pow2_def powr_realpow [symmetric])
next
  case False
  then have "2 powr real_of_int e = 1 / 2 powr real_of_int (- e)"
    by (simp add: powr_minus divide_inverse)
  also have "\<dots> = 1 / 2 ^ nat (- e)" using False by (simp add: powr_realpow [symmetric])
  finally show ?thesis using False by (simp add: pow2_def)
qed

lemma pow2_pos [simp]: "0 < pow2 e"
  by (simp add: pow2_powr)

lemma pow2_add: "pow2 (a + b) = pow2 a * pow2 b"
  by (simp add: pow2_powr powr_add)

lemma pow2_mono: "a \<le> b \<Longrightarrow> pow2 a \<le> pow2 b"
  by (simp add: pow2_powr)

lemma pow2_nat: "0 \<le> e \<Longrightarrow> pow2 e = 2 ^ nat e"
  by (simp add: pow2_def)

lemma pow2_of_nat_int: "0 \<le> e \<Longrightarrow> pow2 e = real_of_int (2 ^ nat e)"
  by (simp add: pow2_def)

lemma floor_log2_bounds:
  assumes "0 < x"
  shows "pow2 \<lfloor>log 2 x\<rfloor> \<le> x" and "x < pow2 (\<lfloor>log 2 x\<rfloor> + 1)"
proof -
  have "real_of_int \<lfloor>log 2 x\<rfloor> \<le> log 2 x" by simp
  then have "2 powr real_of_int \<lfloor>log 2 x\<rfloor> \<le> 2 powr log 2 x" by simp
  then show "pow2 \<lfloor>log 2 x\<rfloor> \<le> x" using assms by (simp add: pow2_powr)
  have "log 2 x < real_of_int (\<lfloor>log 2 x\<rfloor> + 1)" by linarith
  then have "2 powr log 2 x < 2 powr real_of_int (\<lfloor>log 2 x\<rfloor> + 1)"
    by simp
  then show "x < pow2 (\<lfloor>log 2 x\<rfloor> + 1)" using assms by (simp add: pow2_powr)
qed

lemma floor_log2_eq:
  assumes "pow2 e \<le> x" and "x < pow2 (e + 1)"
  shows "\<lfloor>log 2 x\<rfloor> = e"
proof -
  have x: "0 < x" using assms(1) pow2_pos [of e] by linarith
  have "2 powr real_of_int e \<le> 2 powr log 2 x" using assms(1) x by (simp add: pow2_powr)
  then have a: "real_of_int e \<le> log 2 x" by simp
  have "2 powr log 2 x < 2 powr real_of_int (e + 1)" using assms(2) x by (simp add: pow2_powr)
  then have b: "log 2 x < real_of_int (e + 1)" by simp
  show ?thesis using a b by (simp add: floor_eq_iff)
qed

lemma rne_of_int [simp]: "rne (real_of_int k) = k"
  by (simp add: rne_def)

lemma rne_error: "\<bar>real_of_int (rne y) - y\<bar> \<le> 1 / 2"
  unfolding rne_def Let_def by (auto simp add: abs_if) linarith+

lemma rne_between: "\<lfloor>y\<rfloor> \<le> rne y" "rne y \<le> \<lfloor>y\<rfloor> + 1"
  unfolding rne_def Let_def by auto

lemma rne_mono:
  assumes "y \<le> z"
  shows "rne y \<le> rne z"
proof (cases "\<lfloor>y\<rfloor> = \<lfloor>z\<rfloor>")
  case True
  have "y - real_of_int \<lfloor>y\<rfloor> \<le> z - real_of_int \<lfloor>y\<rfloor>" using assms by simp
  then show ?thesis unfolding rne_def Let_def True [symmetric] by auto
next
  case False
  have "\<lfloor>y\<rfloor> \<le> \<lfloor>z\<rfloor>" using assms by (rule floor_mono)
  then have "\<lfloor>y\<rfloor> + 1 \<le> \<lfloor>z\<rfloor>" using False by simp
  then show ?thesis using rne_between(2) [of y] rne_between(1) [of z] by linarith
qed

lemma rne_minus: "rne (- y) = - rne y"
proof (cases "y = real_of_int \<lfloor>y\<rfloor>")
  case True
  then have "rne (- y) = rne (real_of_int (- \<lfloor>y\<rfloor>))" by simp
  also have "\<dots> = - \<lfloor>y\<rfloor>" by (rule rne_of_int)
  also have "\<dots> = - rne (real_of_int \<lfloor>y\<rfloor>)" by simp
  finally show ?thesis using True by simp
next
  case False
  then have f: "\<lfloor>- y\<rfloor> = - \<lfloor>y\<rfloor> - 1"
    by (metis ceiling_def ceiling_altdef diff_minus_eq_add minus_diff_eq minus_minus
        of_int_minus add.commute uminus_add_conv_diff)
  have d: "0 < y - real_of_int \<lfloor>y\<rfloor>" using False by (smt (verit) of_int_floor_le)
  have e: "even (- \<lfloor>y\<rfloor> - 1) \<longleftrightarrow> \<not> even \<lfloor>y\<rfloor>" by simp
  show ?thesis
    unfolding rne_def Let_def f e using d by (auto simp add: algebra_simps)
qed

lemma rne_zero [simp]: "rne 0 = 0"
  using rne_of_int [of 0] by simp

lemma pow2_neq0 [simp]: "pow2 e \<noteq> 0"
  using pow2_pos [of e] by linarith

lemma pow2_nonneg [simp]: "0 \<le> pow2 e"
  using pow2_pos [of e] by linarith

lemma pow2_diff: "pow2 (a - b) = pow2 a / pow2 b"
proof -
  have "pow2 a = pow2 (a - b) * pow2 b" using pow2_add [of "a - b" b] by simp
  then show ?thesis by simp
qed

lemma pow2_int: "0 \<le> e \<Longrightarrow> \<exists>k. pow2 e = real_of_int k"
  by (metis pow2_of_nat_int)

lemma pow2_strict_mono: "a < b \<Longrightarrow> pow2 a < pow2 b"
  by (simp add: pow2_powr)

lemma roundBinary_zero [simp]: "roundBinary p emin 0 = 0"
  by (simp add: roundBinary_def)

lemma binaryExponent_minus [simp]: "binaryExponent emin (- x) = binaryExponent emin x"
  by (simp add: binaryExponent_def)

lemma binaryExponent_ge [simp]: "emin \<le> binaryExponent emin x"
  by (simp add: binaryExponent_def)

lemma roundBinary_unfold:
  "roundBinary p emin x =
     real_of_int (rne (x / pow2 (binaryExponent emin x - p))) * pow2 (binaryExponent emin x - p)"
  by (simp add: roundBinary_def Let_def)

lemma roundBinary_minus: "roundBinary p emin (- x) = - roundBinary p emin x"
  by (simp add: roundBinary_unfold rne_minus)

lemma roundBinary_error_ulp:
  "\<bar>roundBinary p emin x - x\<bar> \<le> pow2 (binaryExponent emin x - p) / 2"
proof -
  define u where "u = pow2 (binaryExponent emin x - p)"
  have u: "0 < u" by (simp add: u_def)
  have "roundBinary p emin x - x = (real_of_int (rne (x / u)) - x / u) * u"
    using u by (simp add: roundBinary_unfold u_def algebra_simps)
  then have "\<bar>roundBinary p emin x - x\<bar> = \<bar>real_of_int (rne (x / u)) - x / u\<bar> * u"
    using u by (simp add: abs_mult)
  also have "\<dots> \<le> (1 / 2) * u"
    using rne_error [of "x / u"] u by (intro mult_right_mono) simp_all
  finally show ?thesis by (simp add: u_def)
qed

lemma binaryExponent_le:
  assumes "x \<noteq> 0" and "\<bar>x\<bar> < pow2 (e + 1)" and "emin \<le> e"
  shows "binaryExponent emin x \<le> e"
proof -
  have "0 < \<bar>x\<bar>" using assms(1) by simp
  from floor_log2_bounds(1) [OF this] assms(2)
  have "pow2 \<lfloor>log 2 \<bar>x\<bar>\<rfloor> < pow2 (e + 1)" by linarith
  then have "\<lfloor>log 2 \<bar>x\<bar>\<rfloor> < e + 1"
    by (metis not_le pow2_mono)
  then show ?thesis using assms(3) by (simp add: binaryExponent_def)
qed

lemma binaryExponent_eq:
  assumes "pow2 e \<le> \<bar>x\<bar>" and "\<bar>x\<bar> < pow2 (e + 1)" and "emin \<le> e"
  shows "binaryExponent emin x = e"
  using floor_log2_eq [OF assms(1,2)] assms(3) by (simp add: binaryExponent_def)

lemma roundBinary_eval:
  assumes "pow2 e \<le> \<bar>x\<bar>" and "\<bar>x\<bar> < pow2 (e + 1)" and "emin \<le> e"
  shows "roundBinary p emin x = real_of_int (rne (x / pow2 (e - p))) * pow2 (e - p)"
  by (simp add: roundBinary_unfold binaryExponent_eq [OF assms])

text \<open>A multiple of \<open>2^j\<close> with at most \<open>p + 1\<close> significant bits is representable.\<close>

lemma roundBinary_exact:
  assumes "x = real_of_int k * pow2 j" and "emin - p \<le> j" and "\<bar>x\<bar> < pow2 (j + p + 1)"
  shows "roundBinary p emin x = x"
proof (cases "x = 0")
  case True
  then show ?thesis by simp
next
  case False
  have "emin \<le> j + p" using assms(2) by arith
  then have "binaryExponent emin x \<le> j + p"
    using False assms(3) by (intro binaryExponent_le)
  then have d: "0 \<le> j - (binaryExponent emin x - p)" by simp
  then obtain m where m: "pow2 (j - (binaryExponent emin x - p)) = real_of_int m"
    using pow2_int by blast
  have "x / pow2 (binaryExponent emin x - p)
          = real_of_int k * pow2 (j - (binaryExponent emin x - p))"
    by (simp add: assms(1) pow2_diff)
  also have "\<dots> = real_of_int (k * m)" by (simp add: m)
  finally have q: "x / pow2 (binaryExponent emin x - p) = real_of_int (k * m)" .
  have "roundBinary p emin x = real_of_int (k * m) * pow2 (binaryExponent emin x - p)"
    unfolding roundBinary_unfold q rne_of_int ..
  also have "\<dots> = x" using q by (simp add: field_simps)
  finally show ?thesis .
qed

text \<open>Rounding keeps the sign and the order.\<close>

lemma roundBinary_nonneg:
  assumes "0 \<le> x"
  shows "0 \<le> roundBinary p emin x"
proof -
  have "0 \<le> x / pow2 (binaryExponent emin x - p)" using assms by simp
  then have "0 \<le> \<lfloor>x / pow2 (binaryExponent emin x - p)\<rfloor>" by simp
  then have "0 \<le> rne (x / pow2 (binaryExponent emin x - p))"
    using rne_between(1) [of "x / pow2 (binaryExponent emin x - p)"] by linarith
  then show ?thesis by (simp add: roundBinary_unfold)
qed

lemma binaryExponent_mono:
  assumes "0 < x" and "x \<le> y"
  shows "binaryExponent emin x \<le> binaryExponent emin y"
proof -
  have "log 2 x \<le> log 2 y" using assms by simp
  then have "\<lfloor>log 2 x\<rfloor> \<le> \<lfloor>log 2 y\<rfloor>" by (rule floor_mono)
  then show ?thesis using assms by (simp add: binaryExponent_def)
qed

lemma roundBinary_upper:
  assumes "0 < x" and "0 \<le> p"
  shows "roundBinary p emin x \<le> pow2 (binaryExponent emin x + 1)"
proof -
  define e where "e = binaryExponent emin x"
  obtain m where m: "pow2 (p + 1) = real_of_int m"
    using pow2_int [of "p + 1"] assms(2) by auto
  have "\<lfloor>log 2 x\<rfloor> \<le> e" using assms by (simp add: e_def binaryExponent_def)
  then have "pow2 (\<lfloor>log 2 x\<rfloor> + 1) \<le> pow2 (e + 1)" by (intro pow2_mono) simp
  then have "x < pow2 (e + 1)" using floor_log2_bounds(2) [OF assms(1)] by linarith
  then have "x / pow2 (e - p) < pow2 (e + 1) / pow2 (e - p)"
    by (simp add: divide_strict_right_mono)
  moreover have "pow2 (e + 1) / pow2 (e - p) = pow2 (e + 1 - (e - p))"
    by (simp only: pow2_diff)
  moreover have "e + 1 - (e - p) = p + 1" by arith
  ultimately have "x / pow2 (e - p) \<le> real_of_int m" by (simp add: m)
  then have "rne (x / pow2 (e - p)) \<le> rne (real_of_int m)" by (rule rne_mono)
  then have "rne (x / pow2 (e - p)) \<le> m" by (simp only: rne_of_int)
  then have "real_of_int (rne (x / pow2 (e - p))) \<le> pow2 (p + 1)" by (simp add: m)
  then have "real_of_int (rne (x / pow2 (e - p))) * pow2 (e - p) \<le> pow2 (p + 1) * pow2 (e - p)"
    by (intro mult_right_mono) simp_all
  moreover have "pow2 (p + 1) * pow2 (e - p) = pow2 (p + 1 + (e - p))" by (simp only: pow2_add)
  moreover have "p + 1 + (e - p) = e + 1" by arith
  ultimately have "real_of_int (rne (x / pow2 (e - p))) * pow2 (e - p) \<le> pow2 (e + 1)"
    by (simp only:)
  then show ?thesis by (simp only: roundBinary_unfold e_def)
qed

lemma roundBinary_lower:
  assumes "0 < x" and "emin < binaryExponent emin x" and "0 \<le> p"
  shows "pow2 (binaryExponent emin x) \<le> roundBinary p emin x"
proof -
  define e where "e = binaryExponent emin x"
  obtain m where m: "pow2 p = real_of_int m"
    using pow2_int [of p] assms(3) by auto
  have "e = \<lfloor>log 2 x\<rfloor>" using assms by (simp add: e_def binaryExponent_def)
  then have "pow2 e \<le> x" using floor_log2_bounds(1) [OF assms(1)] by simp
  then have "pow2 e / pow2 (e - p) \<le> x / pow2 (e - p)"
    by (simp add: divide_right_mono)
  moreover have "pow2 e / pow2 (e - p) = pow2 (e - (e - p))" by (simp only: pow2_diff)
  moreover have "e - (e - p) = p" by arith
  ultimately have "real_of_int m \<le> x / pow2 (e - p)" by (simp add: m)
  then have "rne (real_of_int m) \<le> rne (x / pow2 (e - p))" by (rule rne_mono)
  then have "m \<le> rne (x / pow2 (e - p))" by (simp only: rne_of_int)
  then have "pow2 p \<le> real_of_int (rne (x / pow2 (e - p)))" by (simp add: m)
  then have "pow2 p * pow2 (e - p) \<le> real_of_int (rne (x / pow2 (e - p))) * pow2 (e - p)"
    by (intro mult_right_mono) simp_all
  moreover have "pow2 p * pow2 (e - p) = pow2 (p + (e - p))" by (simp only: pow2_add)
  moreover have "p + (e - p) = e" by arith
  ultimately have "pow2 e \<le> real_of_int (rne (x / pow2 (e - p))) * pow2 (e - p)"
    by (simp only:)
  then show ?thesis by (simp only: roundBinary_unfold e_def)
qed

lemma roundBinary_mono_pos:
  assumes "0 < x" and "x \<le> y" and "0 \<le> p"
  shows "roundBinary p emin x \<le> roundBinary p emin y"
proof (cases "binaryExponent emin x = binaryExponent emin y")
  case True
  define u where "u = pow2 (binaryExponent emin x - p)"
  have "x / u \<le> y / u" using assms(2) by (simp add: divide_right_mono u_def)
  then have "rne (x / u) \<le> rne (y / u)" by (rule rne_mono)
  then have "real_of_int (rne (x / u)) * u \<le> real_of_int (rne (y / u)) * u"
    by (intro mult_right_mono) (simp_all add: u_def)
  then show ?thesis by (simp add: roundBinary_unfold True [symmetric] u_def)
next
  case False
  then have lt: "binaryExponent emin x < binaryExponent emin y"
    using binaryExponent_mono [OF assms(1,2), of emin] by simp
  have y: "0 < y" using assms by linarith
  have "emin < binaryExponent emin y" using lt binaryExponent_ge [of emin x] by linarith
  then have "pow2 (binaryExponent emin y) \<le> roundBinary p emin y"
    using y assms(3) by (intro roundBinary_lower)
  moreover have "pow2 (binaryExponent emin x + 1) \<le> pow2 (binaryExponent emin y)"
    using lt by (intro pow2_mono) simp
  ultimately show ?thesis using roundBinary_upper [OF assms(1,3), of emin] by linarith
qed

lemma roundBinary_mono:
  assumes "x \<le> y" and "0 \<le> p"
  shows "roundBinary p emin x \<le> roundBinary p emin y"
proof -
  consider "0 < x" | "x \<le> 0" "0 \<le> y" | "y < 0" by linarith
  then show ?thesis
  proof cases
    case 1
    then show ?thesis using assms by (intro roundBinary_mono_pos)
  next
    case 2
    have "0 \<le> roundBinary p emin (- x)" using 2(1) by (intro roundBinary_nonneg) simp
    then have "roundBinary p emin x \<le> 0" by (simp add: roundBinary_minus)
    then show ?thesis using roundBinary_nonneg [OF 2(2), of p emin] by linarith
  next
    case 3
    have "roundBinary p emin (- y) \<le> roundBinary p emin (- x)"
      using 3 assms by (intro roundBinary_mono_pos) simp_all
    then show ?thesis by (simp add: roundBinary_minus)
  qed
qed

lemma roundBinary_abs_upper:
  assumes "x \<noteq> 0" and "0 \<le> p"
  shows "\<bar>roundBinary p emin x\<bar> \<le> pow2 (binaryExponent emin x + 1)"
proof (cases "0 < x")
  case True
  then show ?thesis
    using roundBinary_upper [OF True assms(2), of emin] roundBinary_nonneg [of x p emin] by simp
next
  case False
  then have n: "0 < - x" using assms by simp
  have "0 \<le> roundBinary p emin (- x)" using n by (intro roundBinary_nonneg) simp
  then show ?thesis
    using roundBinary_upper [OF n assms(2), of emin] by (simp add: roundBinary_minus)
qed


lemma roundBinary_idem:
  assumes "0 \<le> p"
  shows "roundBinary p emin (roundBinary p emin x) = roundBinary p emin x"
proof (cases "x = 0")
  case True
  then show ?thesis by simp
next
  case False
  define e where "e = binaryExponent emin x"
  define y where "y = roundBinary p emin x"
  have e: "emin \<le> e" by (simp add: e_def)
  have up: "\<bar>y\<bar> \<le> pow2 (e + 1)"
    using roundBinary_abs_upper [OF False assms, of emin] by (simp add: e_def y_def)
  show ?thesis
  proof (cases "\<bar>y\<bar> = pow2 (e + 1)")
    case True
    then have "y = real_of_int 1 * pow2 (e + 1) \<or> y = real_of_int (- 1) * pow2 (e + 1)"
      by (auto simp add: abs_if split: if_splits)
    moreover have "emin - p \<le> e + 1" using e assms by arith
    moreover have "\<bar>y\<bar> < pow2 (e + 1 + p + 1)"
      unfolding True by (intro pow2_strict_mono) (use assms in arith)
    ultimately have "roundBinary p emin y = y"
      using roundBinary_exact [where x = y and j = "e + 1" and p = p and emin = emin] by metis
    then show ?thesis by (simp only: y_def)
  next
    case False
    then have lt: "\<bar>y\<bar> < pow2 (e + 1)" using up by linarith
    have "e - p + p + 1 = e + 1" by arith
    then have "\<bar>y\<bar> < pow2 (e - p + p + 1)" using lt by (simp only:)
    moreover have "emin - p \<le> e - p" using e by arith
    moreover have "y = real_of_int (rne (x / pow2 (e - p))) * pow2 (e - p)"
      by (simp only: roundBinary_unfold e_def y_def)
    ultimately have "roundBinary p emin y = y"
      using roundBinary_exact [where x = y and j = "e - p" and p = p and emin = emin] by blast
    then show ?thesis by (simp only: y_def)
  qed
qed

lemma roundBinary_relative_error:
  assumes "1 \<le> \<bar>x\<bar>" and "emin \<le> 0"
  shows "\<bar>roundBinary p emin x - x\<bar> \<le> \<bar>x\<bar> * pow2 (- p - 1)"
proof -
  have x: "0 < \<bar>x\<bar>" using assms by linarith
  have "0 \<le> log 2 \<bar>x\<bar>" using assms by simp
  then have "0 \<le> \<lfloor>log 2 \<bar>x\<bar>\<rfloor>" by simp
  then have "emin \<le> \<lfloor>log 2 \<bar>x\<bar>\<rfloor>" using assms(2) by linarith
  then have e: "binaryExponent emin x = \<lfloor>log 2 \<bar>x\<bar>\<rfloor>"
    by (simp only: binaryExponent_def max_absorb1)
  have "binaryExponent emin x - p - 1 = binaryExponent emin x + (- p - 1)" by arith
  then have "pow2 (binaryExponent emin x - p - 1)
               = pow2 (binaryExponent emin x) * pow2 (- p - 1)"
    by (simp only: pow2_add)
  moreover have "pow2 (binaryExponent emin x - p) / 2 = pow2 (binaryExponent emin x - p - 1)"
    using pow2_diff [of "binaryExponent emin x - p" 1] by (simp add: pow2_def)
  ultimately have "pow2 (binaryExponent emin x - p) / 2
                     = pow2 (binaryExponent emin x) * pow2 (- p - 1)" by simp
  also have "\<dots> \<le> \<bar>x\<bar> * pow2 (- p - 1)"
    unfolding e using floor_log2_bounds(1) [OF x] by (intro mult_right_mono) simp_all
  finally show ?thesis using roundBinary_error_ulp [of p emin x] by linarith
qed

subsection \<open>Single and double precision\<close>

lemma float32_zero [simp]: "float32 0 = 0"
  by (simp add: float32_def)

lemma float64_zero [simp]: "float64 0 = 0"
  by (simp add: float64_def)

lemma float32_minus: "float32 (- x) = - float32 x"
  by (simp add: float32_def roundBinary_minus)

lemma float64_minus: "float64 (- x) = - float64 x"
  by (simp add: float64_def roundBinary_minus)

lemma float32_eval:
  assumes "pow2 e \<le> \<bar>x\<bar>" and "\<bar>x\<bar> < pow2 (e + 1)" and "- 126 \<le> e"
  shows "float32 x = real_of_int (rne (x / pow2 (e - 23))) * pow2 (e - 23)"
  unfolding float32_def by (rule roundBinary_eval [OF assms])

lemma float64_eval:
  assumes "pow2 e \<le> \<bar>x\<bar>" and "\<bar>x\<bar> < pow2 (e + 1)" and "- 1022 \<le> e"
  shows "float64 x = real_of_int (rne (x / pow2 (e - 52))) * pow2 (e - 52)"
  unfolding float64_def by (rule roundBinary_eval [OF assms])

text \<open>The error of one rounding, for the magnitudes that occur with angles.\<close>

lemma float32_error:
  assumes "\<bar>x\<bar> \<le> 1024"
  shows "\<bar>float32 x - x\<bar> \<le> 1 / 10000"
proof (cases "x = 0")
  case True
  then show ?thesis by simp
next
  case False
  have "\<bar>x\<bar> < pow2 (10 + 1)" using assms by (simp add: pow2_def)
  then have "binaryExponent (- 126) x \<le> 10" using False by (intro binaryExponent_le) simp_all
  then have "pow2 (binaryExponent (- 126) x - 23) \<le> pow2 (- 13)" by (intro pow2_mono) simp
  then have "pow2 (binaryExponent (- 126) x - 23) / 2 \<le> 1 / 10000" by (simp add: pow2_def)
  then show ?thesis
    using roundBinary_error_ulp [of 23 "- 126" x] unfolding float32_def by linarith
qed

lemma float32_relative_error:
  assumes "1 \<le> \<bar>x\<bar>"
  shows "\<bar>float32 x - x\<bar> \<le> \<bar>x\<bar> / 2 ^ 24"
  using roundBinary_relative_error [OF assms, of "- 126" 23]
  by (simp add: float32_def pow2_def)

lemma float64_relative_error:
  assumes "1 \<le> \<bar>x\<bar>"
  shows "\<bar>float64 x - x\<bar> \<le> \<bar>x\<bar> / 2 ^ 53"
  using roundBinary_relative_error [OF assms, of "- 1022" 52]
  by (simp add: float64_def pow2_def)

text \<open>A multiple of \<open>2^j\<close> with at most 24 significant bits is a float.\<close>

lemma float32_exact:
  assumes "x = real_of_int k * pow2 j" and "- 149 \<le> j" and "\<bar>x\<bar> < pow2 (j + 24)"
  shows "float32 x = x"
  unfolding float32_def
proof (rule roundBinary_exact [OF assms(1)])
  show "- 126 - 23 \<le> j" using assms(2) by arith
  have "j + 23 + 1 = j + 24" by arith
  then show "\<bar>x\<bar> < pow2 (j + 23 + 1)" using assms(3) by (simp only:)
qed

lemma float64_exact:
  assumes "x = real_of_int k * pow2 j" and "- 1074 \<le> j" and "\<bar>x\<bar> < pow2 (j + 53)"
  shows "float64 x = x"
  unfolding float64_def
proof (rule roundBinary_exact [OF assms(1)])
  show "- 1022 - 52 \<le> j" using assms(2) by arith
  have "j + 52 + 1 = j + 53" by arith
  then show "\<bar>x\<bar> < pow2 (j + 52 + 1)" using assms(3) by (simp only:)
qed

lemma float32_of_int:
  assumes "\<bar>k\<bar> < 16777216"
  shows "float32 (real_of_int k) = real_of_int k"
proof (rule float32_exact [where k = k and j = 0])
  show "real_of_int k = real_of_int k * pow2 0" by (simp add: pow2_def)
  show "- 149 \<le> (0::int)" by simp
  have "\<bar>real_of_int k\<bar> < 16777216" using assms by linarith
  then show "\<bar>real_of_int k\<bar> < pow2 (0 + 24)" by (simp add: pow2_def)
qed

lemma float64_of_int:
  assumes "\<bar>k\<bar> < 9007199254740992"
  shows "float64 (real_of_int k) = real_of_int k"
proof (rule float64_exact [where k = k and j = 0])
  show "real_of_int k = real_of_int k * pow2 0" by (simp add: pow2_def)
  show "- 1074 \<le> (0::int)" by simp
  have "\<bar>real_of_int k\<bar> < 9007199254740992" using assms by linarith
  then show "\<bar>real_of_int k\<bar> < pow2 (0 + 53)" by (simp add: pow2_def)
qed

lemma float32_numeral [simp]:
  "float32 1 = 1" "float32 55 = 55" "float32 90 = 90" "float32 180 = 180"
  "float32 360 = 360" "float32 720 = 720" "float32 1024 = 1024"
  using float32_of_int [of 1] float32_of_int [of 55] float32_of_int [of 90]
    float32_of_int [of 180] float32_of_int [of 360] float32_of_int [of 720]
    float32_of_int [of 1024]
  by simp_all

lemma float32_numeral_exact:
  "numeral n < (16777216::int) \<Longrightarrow> float32 (numeral n) = numeral n"
  "numeral n < (16777216::int) \<Longrightarrow> float32 (- numeral n) = - numeral n"
  using float32_of_int [of "numeral n"] float32_of_int [of "- numeral n"] by simp_all

lemma float64_numeral_exact:
  "numeral n < (9007199254740992::int) \<Longrightarrow> float64 (numeral n) = numeral n"
  "numeral n < (9007199254740992::int) \<Longrightarrow> float64 (- numeral n) = - numeral n"
  using float64_of_int [of "numeral n"] float64_of_int [of "- numeral n"] by simp_all

lemma float32_minus_one [simp]: "float32 (- 1) = - 1"
  by (simp add: float32_minus)

lemma float64_one [simp]: "float64 1 = 1"
  using float64_of_int [of 1] by simp

lemma float32_nonneg: "0 \<le> x \<Longrightarrow> 0 \<le> float32 x"
  unfolding float32_def by (rule roundBinary_nonneg)

lemma float64_nonneg: "0 \<le> x \<Longrightarrow> 0 \<le> float64 x"
  unfolding float64_def by (rule roundBinary_nonneg)

lemma float32_mono: "x \<le> y \<Longrightarrow> float32 x \<le> float32 y"
  unfolding float32_def by (rule roundBinary_mono) simp_all

lemma float64_mono: "x \<le> y \<Longrightarrow> float64 x \<le> float64 y"
  unfolding float64_def by (rule roundBinary_mono) simp_all


lemma float64_idem: "float64 (float64 x) = float64 x"
  unfolding float64_def by (rule roundBinary_idem) simp

lemma float32_le_numeral:
  "x \<le> 55 \<Longrightarrow> float32 x \<le> 55"
  "x \<le> 180 \<Longrightarrow> float32 x \<le> 180"
  "x \<le> 360 \<Longrightarrow> float32 x \<le> 360"
  "x \<le> 720 \<Longrightarrow> float32 x \<le> 720"
  "x \<le> 90 \<Longrightarrow> float32 x \<le> 90"
  using float32_mono [of x 55] float32_mono [of x 180] float32_mono [of x 360]
    float32_mono [of x 720] float32_mono [of x 90]
  by simp_all




subsection \<open>Acceptable joints\<close>

lemma float64_threshold: "float64 (6 / 10) = 5404319552844595 / 9007199254740992"
proof -
  have "float64 (6 / 10) = real_of_int (rne (6 / 10 / pow2 (- 1 - 52))) * pow2 (- 1 - 52)"
    by (rule float64_eval) (simp_all add: pow2_def)
  also have "rne (6 / 10 / pow2 (- 1 - 52)) = 5404319552844595"
    by (simp add: pow2_def rne_def Let_def)
  finally show ?thesis by (simp add: pow2_def)
qed

lemma confidence_threshold:
  assumes "isFloat c"
  shows "float64 (6 / 10) \<le> c \<longleftrightarrow> 6 / 10 \<le> c"
proof
  assume "6 / 10 \<le> c"
  then show "float64 (6 / 10) \<le> c" unfolding float64_threshold by linarith
next
  assume d: "float64 (6 / 10) \<le> c"
  show "6 / 10 \<le> c"
  proof (rule ccontr)
    assume "\<not> 6 / 10 \<le> c"
    then have lt: "c < 6 / 10" by simp
    have lo: "5404319552844595 / 9007199254740992 \<le> c" using d by (simp only: float64_threshold)
    have "float32 c = real_of_int (rne (c / pow2 (- 1 - 23))) * pow2 (- 1 - 23)"
      using lo lt by (intro float32_eval) (simp_all add: pow2_def)
    then obtain a where a: "c = real_of_int a / 16777216"
      using assms by (auto simp add: isFloat_def pow2_def)
    have "real_of_int a < 10066330" using a lt by simp
    then have "a < 10066330" by linarith
    then have "a \<le> 10066329" by simp
    then have "real_of_int a \<le> 10066329" by linarith
    then have "c \<le> 10066329 / 16777216" using a by simp
    then show False using lo by simp
  qed
qed

lemma jointAt_acceptable: "isJointAcceptable (jointAt x z)"
  by (simp add: isJointAcceptable_def jointAt_def sampleJoint_def)

lemma jointAt_X [simp]: "X (position (info (jointAt x z))) = x"
  by (simp add: jointAt_def sampleJoint_def)

lemma jointAt_Z [simp]: "Z (position (info (jointAt x z))) = z"
  by (simp add: jointAt_def sampleJoint_def)

text \<open>
  C6. A joint is acceptable exactly when it is active and its confidence is at least 0.6:
  it is acceptable at confidence 0.6 when active, never below 0.6, and never when
  inactive, whatever the confidence.
\<close>

theorem isJointAcceptable_iff:
  "(isJointAcceptable j \<longleftrightarrow> isActive j \<and> fConfidence (info j) \<ge> 0.6)
   \<and> (isActive j \<and> fConfidence (info j) = 0.6 \<longrightarrow> isJointAcceptable j)
   \<and> (fConfidence (info j) < 0.6 \<longrightarrow> \<not> isJointAcceptable j)
   \<and> (\<not> isActive j \<longrightarrow> \<not> isJointAcceptable j)"
  by (auto simp add: isJointAcceptable_def)

theorem isJointAcceptable_iff_witness:
  "isJointAcceptable (sampleJoint True 0.6 0 0)
   \<and> \<not> isJointAcceptable (sampleJoint True 0.59 0 0)
   \<and> \<not> isJointAcceptable (sampleJoint False 1 0 0)"
proof -
  have a: "isActive (sampleJoint True 0.6 0 0)
           \<and> fConfidence (info (sampleJoint True 0.6 0 0)) = 0.6"
    by (simp add: sampleJoint_def)
  have b: "fConfidence (info (sampleJoint True 0.59 0 0)) < 0.6"
    by (simp add: sampleJoint_def)
  have c: "\<not> isActive (sampleJoint False 1 0 0)"
    by (simp add: sampleJoint_def)
  show ?thesis
    using a b c
      isJointAcceptable_iff [of "sampleJoint True 0.6 0 0"]
      isJointAcceptable_iff [of "sampleJoint True 0.59 0 0"]
      isJointAcceptable_iff [of "sampleJoint False 1 0 0"]
    by blast
qed

subsection \<open>The angle and the case analysis\<close>

lemma PI_value: "PI = 884279719003555 / 281474976710656"
proof -
  have "PI = real_of_int (rne (314159265358979323846 / 100000000000000000000 / pow2 (1 - 52)))
               * pow2 (1 - 52)"
    unfolding PI_def by (rule float64_eval) (simp_all add: pow2_def)
  also have "rne (314159265358979323846 / 100000000000000000000 / pow2 (1 - 52))
               = 7074237752028440"
    by (simp add: pow2_def rne_def Let_def)
  finally show ?thesis by (simp add: pow2_def)
qed

lemma RAD2DEG_value: "RAD2DEG = 1007958012753983 / 17592186044416"
proof -
  have "RAD2DEG = real_of_int (rne (180 / PI / pow2 (5 - 52))) * pow2 (5 - 52)"
    unfolding RAD2DEG_def by (rule float64_eval) (simp_all add: pow2_def PI_value)
  also have "rne (180 / PI / pow2 (5 - 52)) = 8063664102031864"
    by (simp add: pow2_def rne_def Let_def PI_value)
  finally show ?thesis by (simp add: pow2_def)
qed

lemma RAD2DEG_bounds: "0 < RAD2DEG" "RAD2DEG \<le> 58"
  by (simp_all add: RAD2DEG_value)




lemma arctan_le_self:
  assumes "0 \<le> x"
  shows "arctan x \<le> x"
proof -
  have "(\<lambda>t. t - arctan t) 0 \<le> (\<lambda>t. t - arctan t) x"
  proof (rule DERIV_nonneg_imp_nondecreasing [OF assms])
    fix t :: real
    assume "0 \<le> t" "t \<le> x"
    have "((\<lambda>t. t - arctan t) has_real_derivative (1 - inverse (1 + t\<^sup>2))) (at t)"
      by (auto intro!: derivative_eq_intros)
    moreover have "1 \<le> 1 + t\<^sup>2" by simp
    then have "inverse (1 + t\<^sup>2) \<le> 1" by (rule inverse_le_1_iff [THEN iffD2, OF disjI2])
    then have "0 \<le> 1 - inverse (1 + t\<^sup>2)" by simp
    ultimately show "\<exists>y. ((\<lambda>t. t - arctan t) has_real_derivative y) (at t) \<and> 0 \<le> y"
      by blast
  qed
  then show ?thesis by simp
qed




text \<open>The nine cases of the analysis, one equation each.\<close>

lemma rawRotation_cases:
  fixes rj lj
  defines "rX \<equiv> X (position (info rj))" and "lX \<equiv> X (position (info lj))"
    and "rZ \<equiv> Z (position (info rj))" and "lZ \<equiv> Z (position (info lj))"
  shows "rZ = lZ \<Longrightarrow> rX > lX \<Longrightarrow> rawRotation rj lj = Fin 0"
    and "rX = lX \<Longrightarrow> rZ > lZ \<Longrightarrow> rawRotation rj lj = Fin 90"
    and "rZ = lZ \<Longrightarrow> rX < lX \<Longrightarrow> rawRotation rj lj = Fin 180"
    and "rX = lX \<Longrightarrow> rZ < lZ \<Longrightarrow> rawRotation rj lj = Fin 90"
    and "rZ < lZ \<Longrightarrow> rX > lX \<Longrightarrow> rawRotation rj lj = jointAngle rj lj"
    and "rZ < lZ \<Longrightarrow> rX < lX \<Longrightarrow> rawRotation rj lj = fsub 180 (jointAngle rj lj)"
    and "rZ > lZ \<Longrightarrow> rX < lX \<Longrightarrow> rawRotation rj lj = fadd 180 (jointAngle rj lj)"
    and "rZ > lZ \<Longrightarrow> rX > lX \<Longrightarrow> rawRotation rj lj = fsub 360 (jointAngle rj lj)"
    and "rZ = lZ \<Longrightarrow> rX = lX \<Longrightarrow> rawRotation rj lj = fsub 360 (jointAngle rj lj)"
  unfolding rawRotation_def Let_def rX_def lX_def rZ_def lZ_def
  by simp_all


text \<open>
  The value 360 is reached: with the right joint at (300, 1000 + 1/16384) and the left
  joint at (0, 1000) the angle is at most 1/65536, half the distance of 360 to the float
  before it.
\<close>

lemma float32_dyadic:
  "float32 (1 / 16384) = 1 / 16384" "float32 (1 / 4194304) = 1 / 4194304"
  "float32 (1 / 65536) = 1 / 65536"
proof -
  show "float32 (1 / 16384) = 1 / 16384"
    by (rule float32_exact [where k = 1 and j = "- 14"]) (simp_all add: pow2_def)
  show "float32 (1 / 4194304) = 1 / 4194304"
    by (rule float32_exact [where k = 1 and j = "- 22"]) (simp_all add: pow2_def)
  show "float32 (1 / 65536) = 1 / 65536"
    by (rule float32_exact [where k = 1 and j = "- 16"]) (simp_all add: pow2_def)
qed

lemma float64_dyadic: "float64 (1 / 65536) = 1 / 65536"
  by (rule float64_exact [where k = 1 and j = "- 16"]) (simp_all add: pow2_def)

lemma float32_below_360: "float32 (360 - 1 / 65536) = 360"
proof -
  have "float32 (360 - 1 / 65536)
          = real_of_int (rne ((360 - 1 / 65536) / pow2 (8 - 23))) * pow2 (8 - 23)"
    by (rule float32_eval) (simp_all add: pow2_def)
  also have "rne ((360 - 1 / 65536) / pow2 (8 - 23)) = 11796480"
    by (simp add: pow2_def rne_def Let_def)
  finally show ?thesis by (simp add: pow2_def)
qed

lemma rawRotation_reaches_360:
  "rawRotation (jointAt 300 (1000 + 1 / 16384)) (jointAt 0 1000) = Fin 360"
proof -
  define rj lj where "rj = jointAt 300 (1000 + 1 / 16384)" and "lj = jointAt 0 1000"
  define q :: real where "q = float32 (1 / 16384 / 300)"
  define r where "r = float32 (arctan q)"
  define a where "a = float32 (float64 (r * RAD2DEG))"
  have n: "angleDividend rj lj = 1 / 16384"
    by (simp add: rj_def lj_def angleDividend_def float32_dyadic)
  have d: "angleDivisor rj lj = 300"
    by (simp add: rj_def lj_def angleDivisor_def float32_numeral_exact)
  have angle: "jointAngle rj lj = Fin a"
    unfolding jointAngle_def Let_def n d by (simp add: a_def r_def q_def)
  have q0: "0 \<le> q" unfolding q_def by (rule float32_nonneg) simp
  have "float32 (1 / 16384 / 300) \<le> float32 (1 / 4194304)" by (rule float32_mono) simp
  then have q1: "q \<le> 1 / 4194304" by (simp only: q_def float32_dyadic)
  have "0 \<le> arctan q" using q0 by (simp add: zero_le_arctan_iff)
  then have r0: "0 \<le> r" unfolding r_def by (rule float32_nonneg)
  have "arctan q \<le> 1 / 4194304" using arctan_le_self [OF q0] q1 by linarith
  then have "r \<le> float32 (1 / 4194304)" unfolding r_def by (rule float32_mono)
  then have r1: "r \<le> 1 / 4194304" by (simp only: float32_dyadic)
  have p0: "0 \<le> r * RAD2DEG" using r0 RAD2DEG_bounds(1) by simp
  have "r * RAD2DEG \<le> 1 / 4194304 * 58"
    using r0 r1 RAD2DEG_bounds by (intro mult_mono) simp_all
  then have p1: "r * RAD2DEG \<le> 1 / 65536" by simp
  have a0: "0 \<le> a" unfolding a_def using p0 by (intro float32_nonneg float64_nonneg)
  have "float64 (r * RAD2DEG) \<le> float64 (1 / 65536)" using p1 by (rule float64_mono)
  then have "float64 (r * RAD2DEG) \<le> 1 / 65536" by (simp only: float64_dyadic)
  then have "a \<le> float32 (1 / 65536)" unfolding a_def by (rule float32_mono)
  then have a1: "a \<le> 1 / 65536" by (simp only: float32_dyadic)
  have "float32 (360 - 1 / 65536) \<le> float32 (360 - a)" using a1 by (intro float32_mono) simp
  then have "360 \<le> float32 (360 - a)" by (simp only: float32_below_360)
  moreover have "float32 (360 - a) \<le> 360" using a0 by (intro float32_le_numeral) simp
  ultimately have v: "float32 (360 - a) = 360" by simp
  have "Z (position (info rj)) > Z (position (info lj))"
    "X (position (info rj)) > X (position (info lj))"
    by (simp_all add: rj_def lj_def)
  then have "rawRotation rj lj = fsub 360 (jointAngle rj lj)"
    by (rule rawRotation_cases(8))
  then have "rawRotation rj lj = Fin 360" by (simp add: angle fsub_def v)
  then show ?thesis by (simp only: rj_def lj_def)
qed

lemma rotationFrom2Joints_unsmoothed:
  assumes "isJointAcceptable rj" "isJointAcceptable lj"
  shows "fst (rotationFrom2Joints f rj lj (- 1) c) = rawRotation rj lj"
  using assms by (simp add: rotationFrom2Joints_def Let_def)

text \<open>
  C5. For two acceptable joints and no previous rotation (-1): equal Z with
  right.X > left.X gives 0 degrees, equal X with right.Z > left.Z gives 90 degrees, equal Z
  with right.X < left.X gives 180 degrees.
\<close>

theorem rotationFrom2Joints_axis_aligned:
  assumes "isJointAcceptable rj" and "isJointAcceptable lj"
  shows "(Z (position (info rj)) = Z (position (info lj))
            \<and> X (position (info rj)) > X (position (info lj))
          \<longrightarrow> fst (rotationFrom2Joints f rj lj (- 1) c) = Fin 0)
       \<and> (X (position (info rj)) = X (position (info lj))
            \<and> Z (position (info rj)) > Z (position (info lj))
          \<longrightarrow> fst (rotationFrom2Joints f rj lj (- 1) c) = Fin 90)
       \<and> (Z (position (info rj)) = Z (position (info lj))
            \<and> X (position (info rj)) < X (position (info lj))
          \<longrightarrow> fst (rotationFrom2Joints f rj lj (- 1) c) = Fin 180)"
  unfolding rotationFrom2Joints_unsmoothed [OF assms]
  using rawRotation_cases(1-3) [where rj = rj and lj = lj] by blast

theorem rotationFrom2Joints_axis_aligned_witness:
  "fst (rotationFrom2Joints 30 (jointAt 2 5) (jointAt 1 5) (- 1) None) = Fin 0
   \<and> fst (rotationFrom2Joints 30 (jointAt 1 7) (jointAt 1 5) (- 1) None) = Fin 90
   \<and> fst (rotationFrom2Joints 30 (jointAt 1 5) (jointAt 2 5) (- 1) None) = Fin 180"
proof -
  note t = rotationFrom2Joints_axis_aligned [OF jointAt_acceptable jointAt_acceptable]
  have "fst (rotationFrom2Joints 30 (jointAt 2 5) (jointAt 1 5) (- 1) None) = Fin 0"
    using t [of 2 5 1 5 30 None] by simp
  moreover have "fst (rotationFrom2Joints 30 (jointAt 1 7) (jointAt 1 5) (- 1) None) = Fin 90"
    using t [of 1 7 1 5 30 None] by simp
  moreover have "fst (rotationFrom2Joints 30 (jointAt 1 5) (jointAt 2 5) (- 1) None) = Fin 180"
    using t [of 1 5 2 5 30 None] by simp
  ultimately show ?thesis by simp
qed

lemma jointAngle_coincident:
  assumes "X (position (info rj)) = X (position (info lj))"
    and "Z (position (info rj)) = Z (position (info lj))"
  shows "jointAngle rj lj = NaN"
  using assms by (simp add: jointAngle_def angleDivisor_def angleDividend_def)

text \<open>
  C10. Two acceptable joints with the same X and the same Z: the divisor
  \<open>|right.X - left.X|\<close> of the quotient is zero and so is its dividend, the quotient is a
  NaN, none of the four axis-aligned cases applies, and the last branch yields
  \<open>360 - NaN\<close>: the rotation is a NaN, not a value of \<open>[0,360)\<close>. Two acceptable joints
  with the same X and different Z have a zero divisor as well; there the rotation, 90, does
  not depend on the quotient.
\<close>

theorem rawRotation_coincident_joints:
  "isJointAcceptable (jointAt 2 3)
   \<and> angleDivisor (jointAt 2 3) (jointAt 2 3) = 0
   \<and> angleDividend (jointAt 2 3) (jointAt 2 3) = 0
   \<and> jointAngle (jointAt 2 3) (jointAt 2 3) = NaN
   \<and> rawRotation (jointAt 2 3) (jointAt 2 3) = NaN
   \<and> fst (rotationFrom2Joints 30 (jointAt 2 3) (jointAt 2 3) (- 1) None) = NaN
   \<and> fst (rotationFrom2Joints 30 (jointAt 2 3) (jointAt 2 3) 10 None) = NaN
   \<and> angleDivisor (jointAt 2 5) (jointAt 2 3) = 0
   \<and> rawRotation (jointAt 2 5) (jointAt 2 3) = Fin 90"
proof -
  have a: "jointAngle (jointAt 2 3) (jointAt 2 3) = NaN"
    by (simp add: jointAngle_coincident)
  have r: "rawRotation (jointAt 2 3) (jointAt 2 3) = NaN"
    using rawRotation_cases(9) [where rj = "jointAt 2 3" and lj = "jointAt 2 3"]
    by (simp add: a fsub_def)
  have s: "rawRotation (jointAt 2 5) (jointAt 2 3) = Fin 90"
    using rawRotation_cases(2) [where rj = "jointAt 2 5" and lj = "jointAt 2 3"]
    by simp
  show ?thesis
    by (simp add: jointAt_acceptable a r s rotationFrom2Joints_def angleDivisor_def
        angleDividend_def)
qed

subsection \<open>Smoothing\<close>


















subsection \<open>Aggregation of the four estimates\<close>

lemma trunc_of_int [simp]: "trunc (real_of_int i) = i"
  by (simp add: trunc_def)









lemma castAll_length: "castAll xs = Some is \<Longrightarrow> length is = length xs"
  by (induction xs arbitrary: "is") (auto split: bind_splits)

lemma toInt_minus_one: "toInt (- 1) = Some (- 1)"
proof -
  have "trunc (- 1) = trunc (real_of_int (- 1))" by simp
  then have "trunc (- 1) = - 1" by (simp only: trunc_of_int)
  then show ?thesis by (simp add: toInt_def int32_def INT_MIN_def INT_MAX_def)
qed


lemma inactiveJoint_unacceptable: "\<not> isJointAcceptable inactiveJoint"
  by (simp add: isJointAcceptable_def inactiveJoint_def sampleJoint_def)






subsection \<open>Walk speed\<close>

lemma toInt_le:
  assumes "toInt r = Some i" and "0 \<le> r"
  shows "0 \<le> i \<and> real_of_int i \<le> r"
  using assms by (auto simp add: toInt_def int32_def trunc_def split: if_splits)

text \<open>
  The margin of the walk speed: the single-precision quotient \<open>100 / frequency\<close>,
  converted to \<^verbatim>\<open>int\<close>, is at most \<open>100 / frequency\<close>.
\<close>

lemma float32_101: "float32 101 = 101"
  using float32_of_int [of 101] by simp

lemma speedMargin_le:
  assumes "0 < f" and "toInt (float32 (100 / float32 (real_of_int f))) = Some margin"
  shows "0 \<le> margin \<and> real_of_int margin \<le> 100 / real_of_int f"
proof -
  define y where "y = float32 (100 / float32 (real_of_int f))"
  have "0 \<le> float32 (real_of_int f)" using assms(1) by (intro float32_nonneg) simp
  then have "0 \<le> 100 / float32 (real_of_int f)" by simp
  then have y0: "0 \<le> y" unfolding y_def by (rule float32_nonneg)
  have m: "0 \<le> margin" "real_of_int margin \<le> y"
    using toInt_le [OF assms(2) [folded y_def] y0] by simp_all
  show ?thesis
  proof (cases "f \<le> 100")
    case True
    define x where "x = 100 / real_of_int f"
    have f: "float32 (real_of_int f) = real_of_int f"
      using assms(1) True by (intro float32_of_int) simp
    have rf: "0 < real_of_int f" "real_of_int f \<le> 100" using assms(1) True by simp_all
    have x1: "1 \<le> x" using rf by (simp add: x_def)
    have x100: "x \<le> 100"
    proof -
      have "1 \<le> real_of_int f" using assms(1) by linarith
      then have "100 / real_of_int f \<le> 100 / 1" by (intro divide_left_mono) simp_all
      then show ?thesis by (simp add: x_def)
    qed
    have "\<bar>float32 x - x\<bar> \<le> \<bar>x\<bar> / 2 ^ 24" using x1 by (intro float32_relative_error) simp
    then have "float32 x \<le> x + x / 2 ^ 24" using x1 by (simp add: abs_if split: if_splits)
    then have yx: "y \<le> x + 100 / 2 ^ 24" using x100 by (simp add: y_def f x_def)
    have "real_of_int margin \<le> x"
    proof (rule ccontr)
      assume "\<not> real_of_int margin \<le> x"
      then have "100 / real_of_int f < real_of_int margin" by (simp add: x_def)
      then have "100 < real_of_int margin * real_of_int f"
        using rf(1) by (simp add: pos_divide_less_eq)
      then have "real_of_int 100 < real_of_int (margin * f)" by simp
      then have "100 < margin * f" by (simp only: of_int_less_iff)
      then have "101 \<le> margin * f" by simp
      then have "real_of_int 101 \<le> real_of_int (margin * f)" by (simp only: of_int_le_iff)
      then have "101 \<le> real_of_int margin * real_of_int f" by simp
      then have "101 / real_of_int f \<le> real_of_int margin"
        using rf(1) by (simp add: pos_divide_le_eq)
      moreover have "101 / real_of_int f = x + 1 / real_of_int f"
        by (simp add: x_def add_divide_distrib [symmetric])
      moreover have "1 / 100 \<le> 1 / real_of_int f"
        using rf by (intro divide_left_mono) simp_all
      ultimately have "x + 1 / 100 \<le> real_of_int margin" by linarith
      then show False using m(2) yx by simp
    qed
    then show ?thesis using m(1) by (simp add: x_def)
  next
    case False
    then have "101 \<le> f" by simp
    then have "real_of_int 101 \<le> real_of_int f" by (simp only: of_int_le_iff)
    then have "float32 101 \<le> float32 (real_of_int f)" by (intro float32_mono) simp
    then have g: "101 \<le> float32 (real_of_int f)" by (simp only: float32_101)
    then have "100 / float32 (real_of_int f) \<le> 100 / 101"
      by (intro divide_left_mono) simp_all
    then have "y \<le> float32 (100 / 101)" unfolding y_def by (rule float32_mono)
    moreover have "\<bar>float32 (100 / 101) - 100 / 101\<bar> \<le> 1 / 10000"
      by (rule float32_error) simp
    ultimately have "y < 1" by (simp add: abs_if split: if_splits)
    then have "real_of_int margin < 1" using m(2) by linarith
    then have "margin < 1" by linarith
    then have "margin = 0" using m(1) by simp
    then show ?thesis using assms(1) by simp
  qed
qed

lemma smoothSpeed_bound:
  assumes "0 < f" and "smoothSpeed f speed previousSpeed = Some s"
  shows "\<bar>real_of_int s - real_of_int previousSpeed\<bar> \<le> 100 / real_of_int f"
proof -
  from assms obtain margin d a where
    m: "toInt (float32 (100 / float32 (real_of_int f))) = Some margin"
    and d: "int32 (speed - previousSpeed) = Some d"
    and a: "int32 \<bar>d\<bar> = Some a"
    and s: "(if a > margin then
               (if speed < previousSpeed then int32 (previousSpeed - margin)
                else int32 (previousSpeed + margin))
             else Some speed) = Some s"
    by (auto simp add: smoothSpeed_def split: bind_splits if_splits)
  have mb: "0 \<le> margin" "real_of_int margin \<le> 100 / real_of_int f"
    using speedMargin_le [OF assms(1) m] by simp_all
  have dv: "d = speed - previousSpeed" using d by (simp add: int32_def split: if_splits)
  have av: "a = \<bar>speed - previousSpeed\<bar>" using a dv by (simp add: int32_def split: if_splits)
  have "\<bar>s - previousSpeed\<bar> \<le> margin"
    using s av mb(1) by (auto simp add: int32_def split: if_splits)
  then have "real_of_int \<bar>s - previousSpeed\<bar> \<le> real_of_int margin" by (simp only: of_int_le_iff)
  then show ?thesis using mb(2) by simp
qed

text \<open>
  C2. For every frequency f > 0 and every previous speed other than -1, when the four feet
  are acceptable and \<open>walkSpeedForUser\<close> returns a speed, that speed differs from the
  previous speed by at most 100/f.
\<close>

theorem walkSpeedForUser_smoothed:
  assumes "0 < f" and "previousSpeed \<noteq> - 1"
    and "isJointAcceptable (foot (rightPart u))"
    and "isJointAcceptable (foot (previousRightPart u))"
    and "isJointAcceptable (foot (leftPart u))"
    and "isJointAcceptable (foot (previousLeftPart u))"
    and "walkSpeedForUser f u previousTimestamp previousSpeed c = Some (s, c')"
  shows "\<bar>real_of_int s - real_of_int previousSpeed\<bar> \<le> 100 / real_of_int f"
proof -
  from assms(2-7) obtain speed where "smoothSpeed f speed previousSpeed = Some s"
    by (auto simp add: walkSpeedForUser_def Let_def split: bind_splits if_splits)
  then show ?thesis by (rule smoothSpeed_bound [OF assms(1)])
qed

text \<open>
  C4. When any one of the four foot joints (current right, previous right, current left,
  previous left) is not acceptable, \<open>walkSpeedForUser\<close> returns -1 and leaves the
  confidence slot as it was.
\<close>

theorem walkSpeedForUser_cant_compute:
  assumes "\<not> isJointAcceptable (foot (rightPart u))
           \<or> \<not> isJointAcceptable (foot (previousRightPart u))
           \<or> \<not> isJointAcceptable (foot (leftPart u))
           \<or> \<not> isJointAcceptable (foot (previousLeftPart u))"
  shows "walkSpeedForUser f u previousTimestamp previousSpeed c = Some (- 1, c)"
  using assms by (auto simp add: walkSpeedForUser_def Let_def)

lemma walkingUser_feet:
  "foot (rightPart walkingUser) = jointAt 200 0"
  "foot (previousRightPart walkingUser) = jointAt 250 0"
  "foot (leftPart walkingUser) = jointAt 0 0"
  "foot (previousLeftPart walkingUser) = jointAt 50 0"
  "timestamp walkingUser = 100"
  by (simp_all add: walkingUser_def sampleUser_def footPart_def samplePart_def)

lemma sqrt_2500: "sqrt 2500 = 50"
proof -
  have "sqrt ((50::real)\<^sup>2) = \<bar>50\<bar>" by (rule real_sqrt_abs)
  then show ?thesis by simp
qed

lemma jointAt_confidence [simp]: "fConfidence (info (jointAt x z)) = 1"
  by (simp add: jointAt_def sampleJoint_def)

text \<open>The \<^verbatim>\<open>double\<close> literals 0.1 and 0.001.\<close>

lemma float64_tenth: "float64 (1 / 10) = 3602879701896397 / 36028797018963968"
proof -
  have "float64 (1 / 10) = real_of_int (rne (1 / 10 / pow2 (- 4 - 52))) * pow2 (- 4 - 52)"
    by (rule float64_eval) (simp_all add: pow2_def)
  also have "rne (1 / 10 / pow2 (- 4 - 52)) = 7205759403792794"
    by (simp add: pow2_def rne_def Let_def)
  finally show ?thesis by (simp add: pow2_def)
qed

lemma float64_thousandth: "float64 (1 / 1000) = 1152921504606847 / 1152921504606846976"
proof -
  have "float64 (1 / 1000)
          = real_of_int (rne (1 / 1000 / pow2 (- 10 - 52))) * pow2 (- 10 - 52)"
    by (rule float64_eval) (simp_all add: pow2_def)
  also have "rne (1 / 1000 / pow2 (- 10 - 52)) = 4611686018427388"
    by (simp add: pow2_def rne_def Let_def)
  finally show ?thesis by (simp add: pow2_def)
qed

text \<open>
  50 mm in 100 ms: the \<^verbatim>\<open>double\<close> product \<open>50 * 0.1\<close> is 5, the product
  \<open>100 * 0.001\<close> is the \<^verbatim>\<open>double\<close> 0.1, and their quotient is 50.
\<close>

lemma walkingUser_dividend: "float64 (50 * float64 (1 / 10)) = 5"
proof -
  have "float64 (50 * (3602879701896397 / 36028797018963968))
          = real_of_int (rne (50 * (3602879701896397 / 36028797018963968) / pow2 (2 - 52)))
            * pow2 (2 - 52)"
    by (rule float64_eval) (simp_all add: pow2_def)
  also have "rne (50 * (3602879701896397 / 36028797018963968) / pow2 (2 - 52))
               = 5629499534213120"
    by (simp add: pow2_def rne_def Let_def)
  finally show ?thesis by (simp add: pow2_def float64_tenth)
qed

lemma walkingUser_divisor:
  "float64 (100 * float64 (1 / 1000)) = 3602879701896397 / 36028797018963968"
proof -
  have "float64 (100 * (1152921504606847 / 1152921504606846976))
          = real_of_int (rne (100 * (1152921504606847 / 1152921504606846976)
                              / pow2 (- 4 - 52))) * pow2 (- 4 - 52)"
    by (rule float64_eval) (simp_all add: pow2_def)
  also have "rne (100 * (1152921504606847 / 1152921504606846976) / pow2 (- 4 - 52))
               = 7205759403792794"
    by (simp add: pow2_def rne_def Let_def)
  finally show ?thesis by (simp add: pow2_def float64_thousandth)
qed

lemma walkingUser_quotient:
  "float64 (5 / (3602879701896397 / 36028797018963968)) = 50"
proof -
  have "float64 (5 / (3602879701896397 / 36028797018963968))
          = real_of_int (rne (5 / (3602879701896397 / 36028797018963968) / pow2 (5 - 52)))
            * pow2 (5 - 52)"
    by (rule float64_eval) (simp_all add: pow2_def)
  also have "rne (5 / (3602879701896397 / 36028797018963968) / pow2 (5 - 52))
               = 7036874417766400"
    by (simp add: pow2_def rne_def Let_def)
  finally show ?thesis by (simp add: pow2_def)
qed

text \<open>
  9 mm in 36 ms: 25 cm/s in exact arithmetic, 24 in the arithmetic of line 353, where the
  \<^verbatim>\<open>double\<close> quotient is just below 25.
\<close>

lemma walkSpeed_rounded_down:
  "toInt (float64 (float64 (9 * float64 (1 / 10)) / float64 (float64 36 * float64 (1 / 1000))))
     = Some 24"
proof -
  have "float64 (9 * (3602879701896397 / 36028797018963968))
          = real_of_int (rne (9 * (3602879701896397 / 36028797018963968) / pow2 (- 1 - 52)))
            * pow2 (- 1 - 52)"
    by (rule float64_eval) (simp_all add: pow2_def)
  also have "rne (9 * (3602879701896397 / 36028797018963968) / pow2 (- 1 - 52))
               = 8106479329266893"
    by (simp add: pow2_def rne_def Let_def)
  finally have n: "float64 (9 * float64 (1 / 10)) = 8106479329266893 / 9007199254740992"
    by (simp add: pow2_def float64_tenth)
  have "float64 (36 * (1152921504606847 / 1152921504606846976))
          = real_of_int (rne (36 * (1152921504606847 / 1152921504606846976) / pow2 (- 5 - 52)))
            * pow2 (- 5 - 52)"
    by (rule float64_eval) (simp_all add: pow2_def)
  also have "rne (36 * (1152921504606847 / 1152921504606846976) / pow2 (- 5 - 52))
               = 5188146770730812"
    by (simp add: pow2_def rne_def Let_def)
  finally have "float64 (36 * float64 (1 / 1000)) = 1297036692682703 / 36028797018963968"
    by (simp add: pow2_def float64_thousandth)
  then have d: "float64 (float64 36 * float64 (1 / 1000))
                  = 1297036692682703 / 36028797018963968"
    by (simp add: float64_numeral_exact)
  have "float64 (8106479329266893 / 9007199254740992
                 / (1297036692682703 / 36028797018963968))
          = real_of_int (rne (8106479329266893 / 9007199254740992
                              / (1297036692682703 / 36028797018963968) / pow2 (4 - 52)))
            * pow2 (4 - 52)"
    by (rule float64_eval) (simp_all add: pow2_def)
  also have "rne (8106479329266893 / 9007199254740992
                  / (1297036692682703 / 36028797018963968) / pow2 (4 - 52))
               = 7036874417766399"
    by (simp add: pow2_def rne_def Let_def)
  finally have q: "float64 (8106479329266893 / 9007199254740992
                            / (1297036692682703 / 36028797018963968))
                     = 7036874417766399 / 281474976710656"
    by (simp add: pow2_def)
  show ?thesis
    unfolding n d q by (simp add: toInt_def trunc_def int32_def INT_MIN_def INT_MAX_def)
qed

lemma speedMargin_30: "toInt (float32 (100 / float32 (real_of_int 30))) = Some 3"
proof -
  have "float32 (100 / 30) = real_of_int (rne (100 / 30 / pow2 (1 - 23))) * pow2 (1 - 23)"
    by (rule float32_eval) (simp_all add: pow2_def)
  also have "rne (100 / 30 / pow2 (1 - 23)) = 13981013"
    by (simp add: pow2_def rne_def Let_def)
  finally have "float32 (100 / 30) = 13981013 / 4194304" by (simp add: pow2_def)
  then have v: "float32 (100 / float32 (real_of_int 30)) = 13981013 / 4194304"
    by (simp add: float32_numeral_exact)
  show ?thesis
    unfolding v by (simp add: toInt_def trunc_def int32_def INT_MIN_def INT_MAX_def)
qed

lemma walkingUser_speed:
  "walkSpeedForUser 30 walkingUser 0 40 (- 1) = Some (43, 16)"
proof -
  have q: "toInt (float64 (float64 (50 * float64 (1 / 10))
                           / float64 (float64 (real_of_int 100) * float64 (1 / 1000))))
             = Some 50"
  proof -
    have "float64 (real_of_int 100) = 100" by (simp add: float64_numeral_exact)
    then have "float64 (float64 (50 * float64 (1 / 10))
                 / float64 (float64 (real_of_int 100) * float64 (1 / 1000))) = 50"
      by (simp only: walkingUser_dividend walkingUser_divisor walkingUser_quotient)
    then show ?thesis
      by (simp only: toInt_def) (simp add: trunc_def int32_def INT_MIN_def INT_MAX_def)
  qed
  have nz: "float64 (float64 (real_of_int 100) * float64 (1 / 1000)) \<noteq> 0"
  proof -
    have "float64 (real_of_int 100) = 100" by (simp add: float64_numeral_exact)
    then show ?thesis by (simp add: walkingUser_divisor)
  qed
  have s: "smoothSpeed 30 50 40 = Some 43"
    unfolding smoothSpeed_def speedMargin_30
    by (simp add: int32_def INT_MIN_def INT_MAX_def)
  show ?thesis
    unfolding walkSpeedForUser_def Let_def walkingUser_feet
    using q s nz
    by (simp add: jointAt_acceptable float32_numeral_exact float64_numeral_exact sqrt_2500)
qed

theorem walkSpeedForUser_smoothed_witness:
  "(0::int) < 30 \<and> (40::int) \<noteq> - 1
   \<and> isJointAcceptable (foot (rightPart walkingUser))
   \<and> isJointAcceptable (foot (previousRightPart walkingUser))
   \<and> isJointAcceptable (foot (leftPart walkingUser))
   \<and> isJointAcceptable (foot (previousLeftPart walkingUser))
   \<and> walkSpeedForUser 30 walkingUser 0 40 (- 1) = Some (43, 16)
   \<and> \<bar>real_of_int 43 - real_of_int 40\<bar> \<le> 100 / real_of_int 30"
proof -
  have f: "(0::int) < 30" and p: "(40::int) \<noteq> - 1" by simp_all
  have a: "isJointAcceptable (foot (rightPart walkingUser))"
    "isJointAcceptable (foot (previousRightPart walkingUser))"
    "isJointAcceptable (foot (leftPart walkingUser))"
    "isJointAcceptable (foot (previousLeftPart walkingUser))"
    by (simp_all add: walkingUser_feet jointAt_acceptable)
  show ?thesis
    using walkSpeedForUser_smoothed [OF f p a walkingUser_speed] a walkingUser_speed
    by simp
qed

theorem walkSpeedForUser_cant_compute_witness:
  "\<not> isJointAcceptable (foot (leftPart limpingUser))
   \<and> walkSpeedForUser 30 limpingUser 0 40 7 = Some (- 1, 7)"
proof -
  have a: "\<not> isJointAcceptable (foot (leftPart limpingUser))"
    by (simp add: limpingUser_def sampleUser_def footPart_def samplePart_def
        inactiveJoint_unacceptable)
  then have "\<not> isJointAcceptable (foot (rightPart limpingUser))
           \<or> \<not> isJointAcceptable (foot (previousRightPart limpingUser))
           \<or> \<not> isJointAcceptable (foot (leftPart limpingUser))
           \<or> \<not> isJointAcceptable (foot (previousLeftPart limpingUser))"
    by blast
  from walkSpeedForUser_cant_compute [OF this, of 30 0 40 7] a show ?thesis by blast
qed

subsection \<open>Stopping before the loop has started\<close>

lemma frameLoop_stop_requested:
  assumes "app_stopRequested app"
  shows "frameLoop app firstLoop status events = Returned status (cleanup app)"
proof (cases events)
  case Nil
  then show ?thesis using assms by simp
next
  case (Cons e es)
  then show ?thesis using assms by (cases e) simp_all
qed

text \<open>
  C8. When \<open>requestStop\<close> is called while \<open>isStarted\<close> is false, the call itself runs
  \<open>cleanup\<close>: afterwards \<open>isStopped\<close> is true, the generators and the context are
  released, and no iteration of the frame loop has run (the application is still not
  started and its camera information is untouched). A later \<open>start\<close> returns at the first
  stop test, whatever the sensor delivers.
\<close>

theorem requestStop_before_start:
  assumes "\<not> isStarted app"
  shows "requestStop app = cleanup (app\<lparr>app_stopRequested := True\<rparr>)
       \<and> isStopped (requestStop app)
       \<and> depthGeneratorReleased (requestStop app)
       \<and> userGeneratorReleased (requestStop app)
       \<and> contextReleased (requestStop app)
       \<and> \<not> isStarted (requestStop app)
       \<and> app_camInfo (requestStop app) = app_camInfo app
       \<and> app_infoMemory (requestStop app) = app_infoMemory app
       \<and> frameLoop (requestStop app) True status events
           = Returned status (cleanup (requestStop app))"
proof -
  have r: "requestStop app = cleanup (app\<lparr>app_stopRequested := True\<rparr>)"
    using assms by (simp add: requestStop_def isStarted_def Let_def)
  have s: "app_stopRequested (requestStop app)"
    by (simp add: r cleanup_def)
  show ?thesis
    using assms frameLoop_stop_requested [OF s, of True status events]
    by (simp add: r cleanup_def isStopped_def isStarted_def)
qed

theorem requestStop_before_start_witness:
  "\<not> isStarted initializedApp
   \<and> isStopped (requestStop initializedApp)
   \<and> \<not> isStarted (requestStop initializedApp)
   \<and> start (requestStop initializedApp) 0 [NewFrame quietFrame]
       = Returned 0 (cleanup (requestStop initializedApp))"
proof -
  have n: "\<not> isStarted initializedApp"
    by (simp add: isStarted_def initializedApp_def)
  have i: "app_init (requestStop initializedApp)"
    by (simp add: requestStop_def cleanup_def initializedApp_def isStarted_def)
  have s: "start (requestStop initializedApp) 0 [NewFrame quietFrame]
           = frameLoop (requestStop initializedApp) True 0 [NewFrame quietFrame]"
    using i by (simp add: start_def del: frameLoop.simps)
  show ?thesis
    unfolding s
    using requestStop_before_start [OF n, of 0 "[NewFrame quietFrame]"] n
    by blast
qed

subsection \<open>The calibration callback\<close>








subsection \<open>The counter of frames without move\<close>

lemma rotationForUser_counter:
  assumes "rotationForUser f p u = Some u1"
  shows "numberOfFramesWithoutMove u1 = numberOfFramesWithoutMove u"
  using assms by (auto simp add: rotationForUser_def Let_def split: bind_splits)

lemma newUser_counter: "numberOfFramesWithoutMove (newUser fr prev tid) = 0"
  by (simp add: newUser_def defaultUser_def)

lemma speedAndCounter_counter:
  assumes "speedAndCounter f prev u1 = Some usr"
  shows "numberOfFramesWithoutMove usr =
           (if walkSpeed prev \<noteq> - 1 \<and> walkSpeed prev \<le> 40
            then numberOfFramesWithoutMove prev + 1 else 0)"
  using assms
  by (auto simp add: speedAndCounter_def MIN_COMPUTED_WALKSPEED_def int32_def
      split: bind_splits if_splits)

text \<open>
  \<open>speedAndCounter\<close> returns whenever \<open>walkSpeedForUser\<close> does and the incremented counter
  is an \<^verbatim>\<open>int\<close>.
\<close>

lemma speedAndCounter_defined:
  assumes "walkSpeedForUser f u1 (timestamp prev) (walkSpeed prev) (walkSpeedConfidence u1)
             = Some (speed, confidence)"
    and "INT_MIN \<le> numberOfFramesWithoutMove prev + 1"
    and "numberOfFramesWithoutMove prev + 1 \<le> INT_MAX"
  shows "speedAndCounter f prev u1 =
           Some (u1\<lparr>walkSpeed := speed, walkSpeedConfidence := confidence,
                     numberOfFramesWithoutMove :=
                       (if walkSpeed prev \<noteq> - 1 \<and> walkSpeed prev \<le> 40
                        then numberOfFramesWithoutMove prev + 1 else 0)\<rparr>)"
  using assms by (simp add: speedAndCounter_def MIN_COMPUTED_WALKSPEED_def int32_def)

lemma trackedUser_counter:
  assumes "trackedUser app firstLoop fr prev tid = Some usr"
  shows "(firstLoop \<longrightarrow> numberOfFramesWithoutMove usr = 0)
       \<and> (\<not> firstLoop \<longrightarrow> numberOfFramesWithoutMove usr =
            (if walkSpeed prev \<noteq> - 1 \<and> walkSpeed prev \<le> 40
             then numberOfFramesWithoutMove prev + 1 else 0))"
proof -
  from assms obtain u1 where
    r: "rotationForUser (app_frequency app) (rotation prev) (newUser fr prev tid) = Some u1"
    and rest: "(if \<not> firstLoop then speedAndCounter (app_frequency app) prev u1
                else Some u1) = Some usr"
    by (auto simp add: trackedUser_def split: bind_splits)
  have c1: "numberOfFramesWithoutMove u1 = 0"
    using rotationForUser_counter [OF r] by (simp add: newUser_counter)
  show ?thesis
  proof (cases firstLoop)
    case True
    then show ?thesis using rest c1 by simp
  next
    case False
    then have "speedAndCounter (app_frequency app) prev u1 = Some usr" using rest by simp
    from speedAndCounter_counter [OF this] show ?thesis using False by simp
  qed
qed

lemma frameIteration_result:
  assumes "frameIteration app firstLoop fr = Some (app1, firstLoop1)"
  shows "\<not> firstLoop1
       \<and> (firstLoop \<longrightarrow> numberOfFramesWithoutMove (user (app_camInfo app1)) = 0)
       \<and> (\<not> firstLoop \<and> firstTracked fr \<noteq> 0 \<longrightarrow>
            numberOfFramesWithoutMove (user (app_camInfo app1)) =
              (if walkSpeed (user (app_camInfo app)) \<noteq> - 1
                  \<and> walkSpeed (user (app_camInfo app)) \<le> 40
               then numberOfFramesWithoutMove (user (app_camInfo app)) + 1 else 0))"
proof -
  from assms obtain usr where
    u: "(if firstTracked fr \<noteq> 0
         then trackedUser app firstLoop fr (user (app_camInfo app)) (firstTracked fr)
         else Some (defaultUser\<lparr>id := 0, isTracking := False\<rparr>)) = Some usr"
    and a: "user (app_camInfo app1) = usr" and f: "\<not> firstLoop1"
    by (auto simp add: frameIteration_def Let_def split: bind_splits if_splits)
  show ?thesis
  proof (cases "firstTracked fr \<noteq> 0")
    case True
    then have "trackedUser app firstLoop fr (user (app_camInfo app)) (firstTracked fr) = Some usr"
      using u by simp
    from trackedUser_counter [OF this] show ?thesis using a f True by simp
  next
    case False
    then have "usr = defaultUser\<lparr>id := 0, isTracking := False\<rparr>" using u by simp
    then have "numberOfFramesWithoutMove usr = 0" by (simp add: defaultUser_def)
    then show ?thesis using a f False by simp
  qed
qed

lemma trackedUser_defined:
  assumes "rotationForUser (app_frequency app) (rotation prev) (newUser fr prev tid) = Some rotated"
    and "\<not> firstLoop \<Longrightarrow>
           walkSpeedForUser (app_frequency app) rotated (timestamp prev) (walkSpeed prev)
             (walkSpeedConfidence rotated) = Some (speed, confidence)"
    and "\<not> firstLoop \<Longrightarrow> walkSpeed prev \<noteq> - 1 \<Longrightarrow> walkSpeed prev \<le> 40 \<Longrightarrow>
           INT_MIN \<le> numberOfFramesWithoutMove prev + 1
           \<and> numberOfFramesWithoutMove prev + 1 \<le> INT_MAX"
  shows "\<exists>usr. trackedUser app firstLoop fr prev tid = Some usr"
proof (cases firstLoop)
  case True
  then show ?thesis using assms(1) by (simp add: trackedUser_def)
next
  case False
  have "\<exists>usr. speedAndCounter (app_frequency app) prev rotated = Some usr"
    using assms(2) [OF False] assms(3) [OF False]
    by (simp add: speedAndCounter_def MIN_COMPUTED_WALKSPEED_def int32_def)
  then show ?thesis using False assms(1) by (simp add: trackedUser_def)
qed

lemma frameIteration_defined:
  assumes "firstTracked fr \<noteq> 0 \<Longrightarrow>
           rotationForUser (app_frequency app) (rotation (user (app_camInfo app)))
             (newUser fr (user (app_camInfo app)) (firstTracked fr)) = Some rotated"
    and "firstTracked fr \<noteq> 0 \<Longrightarrow> \<not> firstLoop \<Longrightarrow>
           walkSpeedForUser (app_frequency app) rotated (timestamp (user (app_camInfo app)))
             (walkSpeed (user (app_camInfo app))) (walkSpeedConfidence rotated)
           = Some (speed, confidence)"
    and "firstTracked fr \<noteq> 0 \<Longrightarrow> \<not> firstLoop \<Longrightarrow>
           walkSpeed (user (app_camInfo app)) \<noteq> - 1 \<Longrightarrow>
           walkSpeed (user (app_camInfo app)) \<le> 40 \<Longrightarrow>
           INT_MIN \<le> numberOfFramesWithoutMove (user (app_camInfo app)) + 1
           \<and> numberOfFramesWithoutMove (user (app_camInfo app)) + 1 \<le> INT_MAX"
  shows "\<exists>app1. frameIteration app firstLoop fr = Some (app1, False)"
proof (cases "firstTracked fr \<noteq> 0")
  case True
  have "\<exists>usr. trackedUser app firstLoop fr (user (app_camInfo app)) (firstTracked fr) = Some usr"
    using assms(1) [OF True] assms(2) [OF True] assms(3) [OF True]
    by (rule trackedUser_defined)
  then show ?thesis using True by (auto simp add: frameIteration_def Let_def)
next
  case False
  then show ?thesis by (simp add: frameIteration_def Let_def)
qed

text \<open>
  C7. An iteration of the frame loop in which a user is tracked, and in which the rotation,
  the walk speed and, where the counter is incremented, the incremented counter are
  defined, completes, leaves \<open>firstLoop\<close> false, and sets \<open>numberOfFramesWithoutMove\<close>:
  after the first iteration to the counter of the previous frame plus 1 when the walk speed
  of the previous frame is not -1 and at most 40, and to 0 otherwise; in the first
  iteration the counter is not computed and keeps its initial value 0. An iteration without
  a tracked user completes with the counter 0 of a fresh user.
\<close>

theorem frameIteration_counter:
  assumes "firstTracked fr \<noteq> 0 \<Longrightarrow>
           rotationForUser (app_frequency app) (rotation (user (app_camInfo app)))
             (newUser fr (user (app_camInfo app)) (firstTracked fr)) = Some rotated"
    and "firstTracked fr \<noteq> 0 \<Longrightarrow> \<not> firstLoop \<Longrightarrow>
           walkSpeedForUser (app_frequency app) rotated (timestamp (user (app_camInfo app)))
             (walkSpeed (user (app_camInfo app))) (walkSpeedConfidence rotated)
           = Some (speed, confidence)"
    and "firstTracked fr \<noteq> 0 \<Longrightarrow> \<not> firstLoop \<Longrightarrow>
           walkSpeed (user (app_camInfo app)) \<noteq> - 1 \<Longrightarrow>
           walkSpeed (user (app_camInfo app)) \<le> 40 \<Longrightarrow>
           INT_MIN \<le> numberOfFramesWithoutMove (user (app_camInfo app)) + 1
           \<and> numberOfFramesWithoutMove (user (app_camInfo app)) + 1 \<le> INT_MAX"
  shows "case frameIteration app firstLoop fr of
           None \<Rightarrow> False
         | Some (app1, firstLoop1) \<Rightarrow>
             \<not> firstLoop1
             \<and> numberOfFramesWithoutMove (user (app_camInfo app1)) =
                 (if firstLoop \<or> firstTracked fr = 0 then 0
                  else if walkSpeed (user (app_camInfo app)) \<noteq> - 1
                          \<and> walkSpeed (user (app_camInfo app)) \<le> 40
                       then numberOfFramesWithoutMove (user (app_camInfo app)) + 1
                       else 0)"
proof -
  obtain app1 where d: "frameIteration app firstLoop fr = Some (app1, False)"
    using frameIteration_defined [OF assms] by blast
  have u: "user (app_camInfo app1) = defaultUser\<lparr>id := 0, isTracking := False\<rparr>"
    if "firstTracked fr = 0"
    using d that by (auto simp add: frameIteration_def Let_def)
  have "numberOfFramesWithoutMove (user (app_camInfo app1)) =
          (if firstLoop \<or> firstTracked fr = 0 then 0
           else if walkSpeed (user (app_camInfo app)) \<noteq> - 1
                   \<and> walkSpeed (user (app_camInfo app)) \<le> 40
                then numberOfFramesWithoutMove (user (app_camInfo app)) + 1
                else 0)"
  proof (cases "firstTracked fr = 0")
    case True
    then show ?thesis using u by (simp add: defaultUser_def)
  next
    case False
    then show ?thesis using frameIteration_result [OF d] by simp
  qed
  then show ?thesis by (simp add: d)
qed

lemma rotationFrom2Joints_unacceptable:
  assumes "\<not> isJointAcceptable rj \<or> \<not> isJointAcceptable lj"
  shows "rotationFrom2Joints f rj lj p c = (Fin (- 1), map_option (\<lambda>_. - 1) c)"
  using assms by (auto simp add: rotationFrom2Joints_def)

lemma aggregate_unknown: "aggregateRotations [- 1, - 1, - 1, - 1] = Some (- 1)"
  by (simp add: aggregateRotations_def)

lemma rotationForUser_unknown:
  assumes "\<not> isJointAcceptable (hip (rightPart u))"
    and "\<not> isJointAcceptable (torsoJoint u)"
    and "\<not> isJointAcceptable (shoulder (rightPart u))"
  shows "rotationForUser f p u = Some (u\<lparr>rotationConfidence := - 1, rotation := - 1\<rparr>)"
proof -
  have "pairRotations f p u = [Fin (- 1), Fin (- 1), Fin (- 1), Fin (- 1)]"
    using assms by (simp add: pairRotations_def rotationFrom2Joints_unacceptable)
  then have c: "castAll (pairRotations f p u) = Some [- 1, - 1, - 1, - 1]"
    by (simp add: castInt_def toInt_minus_one)
  show ?thesis
    unfolding rotationForUser_def c Let_def
    using assms(1) by (simp add: aggregate_unknown rotationFrom2Joints_unacceptable)
qed

lemma createJoint_quietFrame: "\<not> isJointAcceptable (createJoint quietFrame jt uid)"
  by (simp add: createJoint_def quietFrame_def isJointAcceptable_def Let_def)

lemma firstTracked_quietFrame: "firstTracked quietFrame = 1"
  by (simp add: firstTracked_def quietFrame_def)

lemma rotationForUser_quietFrame:
  "rotationForUser f p (newUser quietFrame prev tid)
     = Some ((newUser quietFrame prev tid)\<lparr>rotationConfidence := - 1, rotation := - 1\<rparr>)"
  by (rule rotationForUser_unknown) (simp_all add: newUser_def createJoint_quietFrame)

lemma walkSpeedForUser_quietFrame:
  "walkSpeedForUser f ((newUser quietFrame prev tid)\<lparr>rotationConfidence := - 1, rotation := - 1\<rparr>)
     t s c = Some (- 1, c)"
proof -
  have "\<not> isJointAcceptable
          (foot (rightPart ((newUser quietFrame prev tid)\<lparr>rotationConfidence := - 1, rotation := - 1\<rparr>)))"
    by (simp add: newUser_def createJoint_quietFrame)
  then show ?thesis by (simp add: walkSpeedForUser_def Let_def)
qed

lemma appAfter_user:
  "walkSpeed (user (app_camInfo (appAfter s c))) = s"
  "numberOfFramesWithoutMove (user (app_camInfo (appAfter s c))) = c"
  by (simp_all add: appAfter_def)

lemma initializedApp_counter:
  "numberOfFramesWithoutMove (user (app_camInfo initializedApp)) = 0"
  by (simp add: initializedApp_def defaultCameraInformations_def defaultUser_def)

theorem frameIteration_counter_witness:
  "(case frameIteration (appAfter 30 5) False quietFrame of
      Some (app1, firstLoop1) \<Rightarrow>
        \<not> firstLoop1 \<and> numberOfFramesWithoutMove (user (app_camInfo app1)) = 6
    | None \<Rightarrow> False)
   \<and> (case frameIteration (appAfter 40 5) False quietFrame of
      Some (app1, firstLoop1) \<Rightarrow>
        \<not> firstLoop1 \<and> numberOfFramesWithoutMove (user (app_camInfo app1)) = 6
    | None \<Rightarrow> False)
   \<and> (case frameIteration (appAfter 41 5) False quietFrame of
      Some (app1, firstLoop1) \<Rightarrow>
        \<not> firstLoop1 \<and> numberOfFramesWithoutMove (user (app_camInfo app1)) = 0
    | None \<Rightarrow> False)
   \<and> (case frameIteration (appAfter (- 1) 5) False quietFrame of
      Some (app1, firstLoop1) \<Rightarrow>
        \<not> firstLoop1 \<and> numberOfFramesWithoutMove (user (app_camInfo app1)) = 0
    | None \<Rightarrow> False)
   \<and> (case frameIteration initializedApp True quietFrame of
      Some (app1, firstLoop1) \<Rightarrow>
        \<not> firstLoop1 \<and> numberOfFramesWithoutMove (user (app_camInfo app1)) = 0
    | None \<Rightarrow> False)
   \<and> (case frameIteration (appAfter 30 5) False emptyFrame of
      Some (app1, firstLoop1) \<Rightarrow>
        \<not> firstLoop1 \<and> numberOfFramesWithoutMove (user (app_camInfo app1)) = 0
    | None \<Rightarrow> False)"
proof -
  have g: "case frameIteration app fl quietFrame of
            None \<Rightarrow> False
          | Some (app1, firstLoop1) \<Rightarrow>
              \<not> firstLoop1
              \<and> numberOfFramesWithoutMove (user (app_camInfo app1)) =
                  (if fl \<or> firstTracked quietFrame = 0 then 0
                   else if walkSpeed (user (app_camInfo app)) \<noteq> - 1
                           \<and> walkSpeed (user (app_camInfo app)) \<le> 40
                        then numberOfFramesWithoutMove (user (app_camInfo app)) + 1
                        else 0)"
    if "INT_MIN \<le> numberOfFramesWithoutMove (user (app_camInfo app)) + 1"
      and "numberOfFramesWithoutMove (user (app_camInfo app)) + 1 \<le> INT_MAX" for app fl
    by (rule frameIteration_counter
          [where rotated = "(newUser quietFrame (user (app_camInfo app)) (firstTracked quietFrame))
                           \<lparr>rotationConfidence := - 1, rotation := - 1\<rparr>"
             and speed = "- 1"
             and confidence = "walkSpeedConfidence
                 ((newUser quietFrame (user (app_camInfo app)) (firstTracked quietFrame))
                    \<lparr>rotationConfidence := - 1, rotation := - 1\<rparr>)"])
       (simp_all only: rotationForUser_quietFrame walkSpeedForUser_quietFrame that simp_thms)
  have r: "INT_MIN \<le> (5::int) + 1" "(5::int) + 1 \<le> INT_MAX" "INT_MIN \<le> (0::int) + 1"
    "(0::int) + 1 \<le> INT_MAX"
    by (simp_all add: INT_MIN_def INT_MAX_def)
  have a: "case frameIteration (appAfter 30 5) False quietFrame of
      Some (app1, firstLoop1) \<Rightarrow>
        \<not> firstLoop1 \<and> numberOfFramesWithoutMove (user (app_camInfo app1)) = 6
    | None \<Rightarrow> False"
    using g [of "appAfter 30 5" False] r
    by (auto simp add: appAfter_user firstTracked_quietFrame split: option.splits)
  have b: "case frameIteration (appAfter 40 5) False quietFrame of
      Some (app1, firstLoop1) \<Rightarrow>
        \<not> firstLoop1 \<and> numberOfFramesWithoutMove (user (app_camInfo app1)) = 6
    | None \<Rightarrow> False"
    using g [of "appAfter 40 5" False] r
    by (auto simp add: appAfter_user firstTracked_quietFrame split: option.splits)
  have c: "case frameIteration (appAfter 41 5) False quietFrame of
      Some (app1, firstLoop1) \<Rightarrow>
        \<not> firstLoop1 \<and> numberOfFramesWithoutMove (user (app_camInfo app1)) = 0
    | None \<Rightarrow> False"
    using g [of "appAfter 41 5" False] r
    by (auto simp add: appAfter_user firstTracked_quietFrame split: option.splits)
  have d: "case frameIteration (appAfter (- 1) 5) False quietFrame of
      Some (app1, firstLoop1) \<Rightarrow>
        \<not> firstLoop1 \<and> numberOfFramesWithoutMove (user (app_camInfo app1)) = 0
    | None \<Rightarrow> False"
    using g [of "appAfter (- 1) 5" False] r
    by (auto simp add: appAfter_user firstTracked_quietFrame split: option.splits)
  have e: "case frameIteration initializedApp True quietFrame of
      Some (app1, firstLoop1) \<Rightarrow>
        \<not> firstLoop1 \<and> numberOfFramesWithoutMove (user (app_camInfo app1)) = 0
    | None \<Rightarrow> False"
    using g [of initializedApp True] r
    by (auto simp add: initializedApp_counter firstTracked_quietFrame split: option.splits)
  have n: "firstTracked emptyFrame = 0"
    by (simp add: firstTracked_def emptyFrame_def quietFrame_def)
  have "case frameIteration (appAfter 30 5) False emptyFrame of
      None \<Rightarrow> False
    | Some (app1, firstLoop1) \<Rightarrow>
        \<not> firstLoop1
        \<and> numberOfFramesWithoutMove (user (app_camInfo app1)) =
            (if False \<or> firstTracked emptyFrame = 0 then 0
             else if walkSpeed (user (app_camInfo (appAfter 30 5))) \<noteq> - 1
                     \<and> walkSpeed (user (app_camInfo (appAfter 30 5))) \<le> 40
                  then numberOfFramesWithoutMove (user (app_camInfo (appAfter 30 5))) + 1
                  else 0)"
    by (rule frameIteration_counter
          [where rotated = defaultUser and speed = 0 and confidence = 0])
       (simp_all add: n)
  then have u: "case frameIteration (appAfter 30 5) False emptyFrame of
      Some (app1, firstLoop1) \<Rightarrow>
        \<not> firstLoop1 \<and> numberOfFramesWithoutMove (user (app_camInfo app1)) = 0
    | None \<Rightarrow> False"
    by (auto simp add: n split: option.splits)
  from a b c d e u show ?thesis by blast
qed

end
